theory Spec2Isabelle
  imports Complex_Main
begin

section \<open>The C type \<open>double\<close>\<close>

text \<open>
  A C \<open>double\<close> is modelled as a real number or one of the three special values of
  IEEE 754.  Arithmetic on finite values is exact: no rounding, no overflow and no
  underflow.  The special values follow IEEE 754: a division by zero yields an infinity
  or \<open>NaN\<close>, every operation on \<open>NaN\<close> yields \<open>NaN\<close>, and every comparison with \<open>NaN\<close>
  is false.  The two signed zeros are not distinguished: a zero divisor counts as \<open>+0\<close>.
  The single precision calls \<open>sqrtf\<close>, \<open>powf\<close>, \<open>sinf\<close>, \<open>cosf\<close> keep the range of
  \<open>float\<close> and are exact otherwise; the long double calls \<open>powl\<close> coincide with the
  double precision \<open>pow\<close>.
  The rounding of the machine is the subject of a section of its own, after the program:
  the properties that turn on it are stated there, over the rounded operations.
\<close>

datatype double = Fin real | PInf | MInf | NaN

instantiation double :: "{zero, one, plus, uminus, minus, times, inverse, ord}"
begin

definition zero_double :: double where
  "zero_double = Fin 0"

definition one_double :: double where
  "one_double = Fin 1"

fun plus_double :: "double \<Rightarrow> double \<Rightarrow> double" where
  "plus_double (Fin x) (Fin y) = Fin (x + y)"
| "plus_double NaN y = NaN"
| "plus_double x NaN = NaN"
| "plus_double PInf MInf = NaN"
| "plus_double MInf PInf = NaN"
| "plus_double PInf y = PInf"
| "plus_double x PInf = PInf"
| "plus_double MInf y = MInf"
| "plus_double x MInf = MInf"

fun uminus_double :: "double \<Rightarrow> double" where
  "uminus_double (Fin x) = Fin (- x)"
| "uminus_double PInf = MInf"
| "uminus_double MInf = PInf"
| "uminus_double NaN = NaN"

definition minus_double :: "double \<Rightarrow> double \<Rightarrow> double" where
  "minus_double x y = x + (- y)"

fun times_double :: "double \<Rightarrow> double \<Rightarrow> double" where
  "times_double (Fin x) (Fin y) = Fin (x * y)"
| "times_double NaN y = NaN"
| "times_double x NaN = NaN"
| "times_double PInf (Fin y) = (if y = 0 then NaN else if 0 < y then PInf else MInf)"
| "times_double MInf (Fin y) = (if y = 0 then NaN else if 0 < y then MInf else PInf)"
| "times_double (Fin x) PInf = (if x = 0 then NaN else if 0 < x then PInf else MInf)"
| "times_double (Fin x) MInf = (if x = 0 then NaN else if 0 < x then MInf else PInf)"
| "times_double PInf PInf = PInf"
| "times_double PInf MInf = MInf"
| "times_double MInf PInf = MInf"
| "times_double MInf MInf = PInf"

fun divide_double :: "double \<Rightarrow> double \<Rightarrow> double" where
  "divide_double (Fin x) (Fin y) =
     (if y = 0 then (if x = 0 then NaN else if 0 < x then PInf else MInf) else Fin (x / y))"
| "divide_double NaN y = NaN"
| "divide_double x NaN = NaN"
| "divide_double (Fin x) PInf = Fin 0"
| "divide_double (Fin x) MInf = Fin 0"
| "divide_double PInf (Fin y) = (if 0 \<le> y then PInf else MInf)"
| "divide_double MInf (Fin y) = (if 0 \<le> y then MInf else PInf)"
| "divide_double PInf PInf = NaN"
| "divide_double PInf MInf = NaN"
| "divide_double MInf PInf = NaN"
| "divide_double MInf MInf = NaN"

definition inverse_double :: "double \<Rightarrow> double" where
  "inverse_double x = divide (Fin 1) x"

fun less_eq_double :: "double \<Rightarrow> double \<Rightarrow> bool" where
  "less_eq_double (Fin x) (Fin y) = (x \<le> y)"
| "less_eq_double NaN y = False"
| "less_eq_double x NaN = False"
| "less_eq_double MInf y = True"
| "less_eq_double x PInf = True"
| "less_eq_double PInf y = False"
| "less_eq_double x MInf = False"

fun less_double :: "double \<Rightarrow> double \<Rightarrow> bool" where
  "less_double (Fin x) (Fin y) = (x < y)"
| "less_double NaN y = False"
| "less_double x NaN = False"
| "less_double PInf y = False"
| "less_double x MInf = False"
| "less_double MInf y = True"
| "less_double x PInf = True"

instance ..

end

instance double :: semigroup_add
proof
  fix x y z :: double
  show "x + y + z = x + (y + z)"
    by (cases x; cases y; cases z) simp_all
qed

instance double :: numeral ..

instance double :: power ..

text \<open>The conversion of an \<open>int\<close> loop counter to \<open>double\<close>.\<close>

definition double_of_int :: "int \<Rightarrow> double" where
  "double_of_int i = Fin (of_int i)"

subsection \<open>The functions of \<open>math.h\<close> and the constant of \<open>float.h\<close>\<close>

fun sqrt_d :: "double \<Rightarrow> double" where
  "sqrt_d (Fin x) = (if x < 0 then NaN else Fin (sqrt x))"
| "sqrt_d PInf = PInf"
| "sqrt_d MInf = NaN"
| "sqrt_d NaN = NaN"

fun sin_d :: "double \<Rightarrow> double" where
  "sin_d (Fin x) = Fin (sin x)"
| "sin_d x = NaN"

fun cos_d :: "double \<Rightarrow> double" where
  "cos_d (Fin x) = Fin (cos x)"
| "cos_d x = NaN"

text \<open>
  \<open>atan2(y, x)\<close>: the angle of the point \<open>(x, y)\<close> in \<open>(-\<pi>, \<pi>]\<close>, with the values that
  C99 (Annex F) gives at zeros and infinities.
\<close>

fun atan2_d :: "double \<Rightarrow> double \<Rightarrow> double" where
  "atan2_d (Fin y) (Fin x) =
     Fin (if 0 < x then arctan (y / x)
          else if x < 0 then (if 0 \<le> y then arctan (y / x) + pi else arctan (y / x) - pi)
          else if 0 < y then pi / 2
          else if y < 0 then - (pi / 2)
          else 0)"
| "atan2_d NaN x = NaN"
| "atan2_d y NaN = NaN"
| "atan2_d (Fin y) PInf = Fin 0"
| "atan2_d (Fin y) MInf = Fin (if 0 \<le> y then pi else - pi)"
| "atan2_d PInf (Fin x) = Fin (pi / 2)"
| "atan2_d MInf (Fin x) = Fin (- (pi / 2))"
| "atan2_d PInf PInf = Fin (pi / 4)"
| "atan2_d PInf MInf = Fin (3 * pi / 4)"
| "atan2_d MInf PInf = Fin (- (pi / 4))"
| "atan2_d MInf MInf = Fin (- (3 * pi / 4))"

text \<open>
  \<open>pow(x, y)\<close>.  Every call of the program passes a literal as the exponent, so the
  exponent is a real number here.  A positive integer exponent is repeated
  multiplication; a negative base with a fractional exponent is a domain error (\<open>NaN\<close>).
\<close>

definition is_int :: "real \<Rightarrow> bool" where
  "is_int y = (of_int \<lfloor>y\<rfloor> = y)"

fun pow_d :: "double \<Rightarrow> real \<Rightarrow> double" where
  "pow_d (Fin x) y =
     (if y = 0 then Fin 1
      else if is_int y \<and> 0 < y then Fin (x ^ nat \<lfloor>y\<rfloor>)
      else if 0 < x then Fin (x powr y)
      else if x = 0 then (if 0 < y then Fin 0 else PInf)
      else if is_int y then Fin (1 / x ^ nat \<lfloor>- y\<rfloor>)
      else NaN)"
| "pow_d PInf y = (if y = 0 then Fin 1 else if 0 < y then PInf else Fin 0)"
| "pow_d MInf y =
     (if y = 0 then Fin 1
      else if y < 0 then Fin 0
      else if is_int y \<and> odd \<lfloor>y\<rfloor> then MInf else PInf)"
| "pow_d NaN y = (if y = 0 then Fin 1 else NaN)"

abbreviation powl :: "double \<Rightarrow> real \<Rightarrow> double" where
  "powl \<equiv> pow_d"

text \<open>
  The conversion of a \<open>double\<close> to \<open>float\<close>, which the single precision functions apply
  to their argument and to their result: a value of magnitude \<open>2^128 - 2^103\<close> or
  more, the midpoint between \<open>FLT_MAX\<close> and \<open>2^128\<close>, is beyond the range of \<open>float\<close>
  and becomes an infinity.  The loss of precision of the conversion is not modelled.
\<close>

definition to_float :: "double \<Rightarrow> double" where
  "to_float x =
     (case x of
        Fin r \<Rightarrow>
          if 340282356779733661637539395458142568448 \<le> r then PInf
          else if r \<le> - 340282356779733661637539395458142568448 then MInf
          else Fin r
      | _ \<Rightarrow> x)"

definition sqrtf :: "double \<Rightarrow> double" where
  "sqrtf x = sqrt_d (to_float x)"

definition powf :: "double \<Rightarrow> real \<Rightarrow> double" where
  "powf x y = to_float (pow_d (to_float x) y)"

definition sinf :: "double \<Rightarrow> double" where
  "sinf x = sin_d (to_float x)"

definition cosf :: "double \<Rightarrow> double" where
  "cosf x = cos_d (to_float x)"

text \<open>\<open>FLT_MAX\<close> of \<open>float.h\<close>: the largest finite single precision number.\<close>

definition FLT_MAX :: double where
  "FLT_MAX = Fin 340282346638528859811704183484516925440"

section \<open>The program\<close>

record Triplet =
  a :: double
  b :: double
  c :: double

text \<open>The rows of the matrix for RGB and of the matrix for XYZ.\<close>

definition m :: "Triplet list" where
  "m = [
    \<lparr> a = 3.2409699419045214, b = - 1.5373831775700935, c = - 0.49861076029300328 \<rparr>,
    \<lparr> a = - 0.96924363628087983, b = 1.8759675015077207, c = 0.041555057407175613 \<rparr>,
    \<lparr> a = 0.055630079696993609, b = - 0.20397695888897657, c = 1.0569715142428786 \<rparr> ]"

definition m_inv :: "Triplet list" where
  "m_inv = [
    \<lparr> a = 0.41239079926595948, b = 0.35758433938387796, c = 0.18048078840183429 \<rparr>,
    \<lparr> a = 0.21263900587151036, b = 0.71516867876775593, c = 0.072192315360733715 \<rparr>,
    \<lparr> a = 0.019330818715591851, b = 0.11919477979462599, c = 0.95053215224966058 \<rparr> ]"

definition pi_const :: double where
  "pi_const = 3.14159265358979323846"

definition ref_u :: double where
  "ref_u = 0.19783000664283681"

definition ref_v :: double where
  "ref_v = 0.468319994938791"

definition kappa :: double where
  "kappa = 903.2962962962963"

definition epsilon :: double where
  "epsilon = 0.0088564516790356308"

record Bounds =
  a :: double
  b :: double

text \<open>The two nested loops of \<open>get_bounds\<close>, which fill \<open>bounds[channel * 2 + t]\<close>.\<close>

definition get_bounds_loops :: "double \<Rightarrow> double \<Rightarrow> Bounds list" where
  "get_bounds_loops l sub2 =
     concat (map (\<lambda>channel.
          let m1 = Triplet.a (m ! channel);
              m2 = Triplet.b (m ! channel);
              m3 = Triplet.c (m ! channel)
          in map (\<lambda>t.
               let top1 = (284517.0 * m1 - 94839.0 * m3) * sub2;
                   top2 = (838422.0 * m3 + 769860.0 * m2 + 731718.0 * m1) * l * sub2
                            - 769860.0 * double_of_int t * l;
                   bottom = (632260.0 * m3 - 126452.0 * m2) * sub2 + 126452.0 * double_of_int t
               in \<lparr> Bounds.a = top1 / bottom, Bounds.b = top2 / bottom \<rparr>)
             [0, 1])
        [0, 1, 2])"

definition get_bounds :: "double \<Rightarrow> Bounds list" where
  "get_bounds l =
    (let sub1 = pow_d (l + 16.0) 3.0 / 1560896.0;
         sub2 = (if sub1 > epsilon then sub1 else (l / kappa))
     in get_bounds_loops l sub2)"

definition intersect_line_line :: "Bounds \<Rightarrow> Bounds \<Rightarrow> double" where
  "intersect_line_line line1 line2 =
     (Bounds.b line1 - Bounds.b line2) / (Bounds.a line2 - Bounds.a line1)"

definition dist_from_pole :: "double \<Rightarrow> double \<Rightarrow> double" where
  "dist_from_pole x y = sqrt_d (x * x + y * y)"

definition ray_length_until_intersect :: "double \<Rightarrow> Bounds \<Rightarrow> double" where
  "ray_length_until_intersect theta line =
     Bounds.b line / (sin_d theta - Bounds.a line * cos_d theta)"

text \<open>
  The distance that one iteration of the loop of \<open>max_safe_chroma_for_l\<close> computes for
  the line \<open>bounds[i]\<close>.
\<close>

definition pole_distance :: "Bounds \<Rightarrow> double" where
  "pole_distance bound =
     (let m1 = Bounds.a bound;
          b1 = Bounds.b bound;
          line2 = \<lparr> Bounds.a = (- 1.0) / m1, Bounds.b = 0.0 \<rparr>;
          x = intersect_line_line bound line2
      in dist_from_pole x (b1 + x * m1))"

text \<open>The loop of \<open>max_safe_chroma_for_l\<close>, from index \<open>i\<close> on, with the running minimum.\<close>

fun max_safe_chroma_loop :: "Bounds list \<Rightarrow> double \<Rightarrow> double" where
  "max_safe_chroma_loop [] min_len = min_len"
| "max_safe_chroma_loop (bound # bounds) min_len =
     (let distance = pole_distance bound
      in max_safe_chroma_loop bounds
           (if distance \<ge> 0 then (if distance < min_len then distance else min_len)
            else min_len))"

definition max_safe_chroma_for_l :: "double \<Rightarrow> double" where
  "max_safe_chroma_for_l l = max_safe_chroma_loop (get_bounds l) FLT_MAX"

text \<open>The loop of \<open>max_chroma_for_lh\<close>.\<close>

fun max_chroma_loop :: "double \<Rightarrow> Bounds list \<Rightarrow> double \<Rightarrow> double" where
  "max_chroma_loop hrad [] min_len = min_len"
| "max_chroma_loop hrad (bound # bounds) min_len =
     (let l = ray_length_until_intersect hrad bound
      in max_chroma_loop hrad bounds
           (if l \<ge> 0 then (if l < min_len then l else min_len) else min_len))"

definition max_chroma_for_lh :: "double \<Rightarrow> double \<Rightarrow> double" where
  "max_chroma_for_lh l h =
     (let hrad = h / 360.0 * pi_const * 2.0
      in max_chroma_loop hrad (get_bounds l) FLT_MAX)"

definition dot_product :: "Triplet \<Rightarrow> Triplet \<Rightarrow> double" where
  "dot_product t1 t2 =
     Triplet.a t1 * Triplet.a t2 + Triplet.b t1 * Triplet.b t2 + Triplet.c t1 * Triplet.c t2"

definition from_linear :: "double \<Rightarrow> double" where
  "from_linear x =
     (if x \<le> 0.0031308 then 12.92 * x
      else 1.055 * pow_d x (1.0 / 2.4) - 0.055)"

definition to_linear :: "double \<Rightarrow> double" where
  "to_linear x =
     (if x > 0.04045 then pow_d ((x + 0.055) / (1 + 0.055)) 2.4
      else x / 12.92)"

definition xyz2rgb :: "Triplet \<Rightarrow> Triplet" where
  "xyz2rgb in_out =
     (let r = from_linear (dot_product (m ! 0) in_out);
          g = from_linear (dot_product (m ! 1) in_out);
          b = from_linear (dot_product (m ! 2) in_out)
      in \<lparr> Triplet.a = r, Triplet.b = g, Triplet.c = b \<rparr>)"

definition rgb2xyz :: "Triplet \<Rightarrow> Triplet" where
  "rgb2xyz in_out =
     (let rgbl = \<lparr> Triplet.a = to_linear (Triplet.a in_out),
                   Triplet.b = to_linear (Triplet.b in_out),
                   Triplet.c = to_linear (Triplet.c in_out) \<rparr>;
          x = dot_product (m_inv ! 0) rgbl;
          y = dot_product (m_inv ! 1) rgbl;
          z = dot_product (m_inv ! 2) rgbl
      in \<lparr> Triplet.a = x, Triplet.b = y, Triplet.c = z \<rparr>)"

definition y2l :: "double \<Rightarrow> double" where
  "y2l y =
     (if y \<le> epsilon then y * kappa
      else 116.0 * powl y (1.0 / 3.0) - 16.0)"

definition l2y :: "double \<Rightarrow> double" where
  "l2y l =
     (if l \<le> 8.0 then l / kappa
      else powl ((l + 16.0) / 116.0) 3.0)"

definition xyz2luv :: "Triplet \<Rightarrow> Triplet" where
  "xyz2luv in_out =
     (let var_u = (4.0 * Triplet.a in_out)
                    / (Triplet.a in_out + (15.0 * Triplet.b in_out) + (3.0 * Triplet.c in_out));
          var_v = (9.0 * Triplet.b in_out)
                    / (Triplet.a in_out + (15.0 * Triplet.b in_out) + (3.0 * Triplet.c in_out));
          l = y2l (Triplet.b in_out);
          u = 13.0 * l * (var_u - ref_u);
          v = 13.0 * l * (var_v - ref_v)
      in if l < 0.00000001
         then \<lparr> Triplet.a = l, Triplet.b = 0.0, Triplet.c = 0.0 \<rparr>
         else \<lparr> Triplet.a = l, Triplet.b = u, Triplet.c = v \<rparr>)"

definition luv2xyz :: "Triplet \<Rightarrow> Triplet" where
  "luv2xyz in_out =
     (if Triplet.a in_out \<le> 0.00000001
      then \<lparr> Triplet.a = 0.0, Triplet.b = 0.0, Triplet.c = 0.0 \<rparr>
      else
        let var_u = Triplet.b in_out / (13.0 * Triplet.a in_out) + ref_u;
            var_v = Triplet.c in_out / (13.0 * Triplet.a in_out) + ref_v;
            y = l2y (Triplet.a in_out);
            x = - (9.0 * y * var_u) / ((var_u - 4.0) * var_v - var_u * var_v);
            z = (9.0 * y - (15.0 * var_v * y) - (var_v * x)) / (3 * var_v)
        in \<lparr> Triplet.a = x, Triplet.b = y, Triplet.c = z \<rparr>)"

definition luv2lch :: "Triplet \<Rightarrow> Triplet" where
  "luv2lch in_out =
     (let l = Triplet.a in_out;
          u = Triplet.b in_out;
          v = Triplet.c in_out;
          chroma = sqrtf (powf u 2.0 + powf v 2.0);
          h = (if chroma < 0.00000001 then 0
               else let h = atan2_d v u * (360.0 / 2.0 / pi_const)
                    in if h < 0.0 then h + 360.0 else h)
      in \<lparr> Triplet.a = l, Triplet.b = chroma, Triplet.c = h \<rparr>)"

definition lch2luv :: "Triplet \<Rightarrow> Triplet" where
  "lch2luv in_out =
     (let hrad = Triplet.c in_out * (2.0 * pi_const / 360.0);
          u = cosf hrad * Triplet.b in_out;
          v = sinf hrad * Triplet.b in_out
      in in_out \<lparr> Triplet.b := u, Triplet.c := v \<rparr>)"

definition hsluv2lch :: "Triplet \<Rightarrow> Triplet" where
  "hsluv2lch in_out =
     (let h = Triplet.a in_out;
          s = Triplet.b in_out;
          l = Triplet.c in_out;
          chroma = (if l > 99.9999999 \<or> l < 0.00000001 then 0.0
                    else max_chroma_for_lh l h / 100.0 * s);
          h = (if s < 0.00000001 then 0 else h)
      in \<lparr> Triplet.a = l, Triplet.b = chroma, Triplet.c = h \<rparr>)"

definition lch2hsluv :: "Triplet \<Rightarrow> Triplet" where
  "lch2hsluv in_out =
     (let l = Triplet.a in_out;
          chroma = Triplet.b in_out;
          h = Triplet.c in_out;
          s = (if l > 99.9999999 \<or> l < 0.00000001 then 0
               else chroma / max_chroma_for_lh l h * 100.0);
          h = (if chroma < 0.00000001 then 0 else h)
      in \<lparr> Triplet.a = h, Triplet.b = s, Triplet.c = l \<rparr>)"

definition hpluv2lch :: "Triplet \<Rightarrow> Triplet" where
  "hpluv2lch in_out =
     (let h = Triplet.a in_out;
          s = Triplet.b in_out;
          l = Triplet.c in_out;
          chroma = (if l > 99.9999999 \<or> l < 0.00000001 then 0.0
                    else max_safe_chroma_for_l l / 100.0 * s);
          h = (if s < 0.00000001 then 0.0 else h)
      in \<lparr> Triplet.a = l, Triplet.b = chroma, Triplet.c = h \<rparr>)"

definition lch2hpluv :: "Triplet \<Rightarrow> Triplet" where
  "lch2hpluv in_out =
     (let l = Triplet.a in_out;
          chroma = Triplet.b in_out;
          h = Triplet.c in_out;
          s = (if l > 99.9999999 \<or> l < 0.00000001 then 0.0
               else chroma / max_safe_chroma_for_l l * 100.0);
          h = (if chroma < 0.00000001 then 0 else h)
      in \<lparr> Triplet.a = h, Triplet.b = s, Triplet.c = l \<rparr>)"

text \<open>
  The four entry points.  Each returns the triple that the C function stores through
  its three result pointers.
\<close>

definition hsluv2rgb :: "double \<Rightarrow> double \<Rightarrow> double \<Rightarrow> Triplet" where
  "hsluv2rgb h s l =
     xyz2rgb (luv2xyz (lch2luv (hsluv2lch \<lparr> Triplet.a = h, Triplet.b = s, Triplet.c = l \<rparr>)))"

definition hpluv2rgb :: "double \<Rightarrow> double \<Rightarrow> double \<Rightarrow> Triplet" where
  "hpluv2rgb h s l =
     xyz2rgb (luv2xyz (lch2luv (hpluv2lch \<lparr> Triplet.a = h, Triplet.b = s, Triplet.c = l \<rparr>)))"

definition rgb2hsluv :: "double \<Rightarrow> double \<Rightarrow> double \<Rightarrow> Triplet" where
  "rgb2hsluv r g bl =
     lch2hsluv (luv2lch (xyz2luv (rgb2xyz \<lparr> Triplet.a = r, Triplet.b = g, Triplet.c = bl \<rparr>)))"

definition rgb2hpluv :: "double \<Rightarrow> double \<Rightarrow> double \<Rightarrow> Triplet" where
  "rgb2hpluv r g bl =
     lch2hpluv (luv2lch (xyz2luv (rgb2xyz \<lparr> Triplet.a = r, Triplet.b = g, Triplet.c = bl \<rparr>)))"

section \<open>The rounding of IEEE 754\<close>

text \<open>
  The program of the previous section computes with exact numbers.  Where a property
  turns on the rounding of the machine, the functions concerned are given once more
  below, with every operation rounded as a machine with IEEE 754 arithmetic rounds it:
  to the nearest number of the format, a tie going to the number with an even last
  digit.  \<open>double\<close> is the format binary64, with 53 digits and exponents from \<open>-1022\<close>
  to \<open>1023\<close>, and \<open>float\<close> is binary32, with 24 digits and exponents from \<open>-126\<close> to
  \<open>127\<close>.  Each operation of the C text is rounded once (no fused operations, no
  wider intermediate format), and the two signed zeros are still not distinguished.
\<close>

subsection \<open>Rounding a real number\<close>

text \<open>\<open>pow2 e\<close> is \<open>2\<close> to the power \<open>e\<close>, for an integer \<open>e\<close> of either sign.\<close>

definition pow2 :: "int \<Rightarrow> real" where
  "pow2 e = (if 0 \<le> e then 2 ^ nat e else 1 / 2 ^ nat (- e))"

text \<open>The nearest integer, a tie going to the even one.\<close>

definition round_even :: "real \<Rightarrow> int" where
  "round_even r =
     (let f = \<lfloor>r\<rfloor>; d = r - of_int f
      in if d < 1 / 2 then f else if 1 / 2 < d then f + 1 else if even f then f else f + 1)"

text \<open>The exponent \<open>e\<close> of a number \<open>x\<close> other than 0: \<open>2^e \<le> |x| < 2^(e+1)\<close>.\<close>

definition binade :: "real \<Rightarrow> int" where
  "binade x = \<lfloor>log 2 \<bar>x\<bar>\<rfloor>"

text \<open>
  Rounding to \<open>p\<close> digits with the least exponent \<open>emin\<close>: the number is rounded to a
  multiple of the quantum \<open>2^(e - p + 1)\<close> of its exponent \<open>e\<close>, and below \<open>2^emin\<close> of the
  quantum \<open>2^(emin - p + 1)\<close> of the subnormal numbers.
\<close>

definition round_to :: "int \<Rightarrow> int \<Rightarrow> real \<Rightarrow> real" where
  "round_to p emin x =
     (if x = 0 then 0
      else let q = pow2 (max (binade x) emin - p + 1)
           in of_int (round_even (x / q)) * q)"

text \<open>
  Rounding to \<open>double\<close> and to \<open>float\<close>: a result of magnitude \<open>2^1024\<close>, respectively
  \<open>2^128\<close>, is an overflow and becomes an infinity.  \<open>rd\<close> and \<open>rf\<close> round a value of the
  model, leaving infinities and \<open>NaN\<close> as they are; \<open>rd\<close> applied to a decimal literal is
  the \<open>double\<close> that the literal denotes.
\<close>

definition to_double :: "real \<Rightarrow> double" where
  "to_double x =
     (let y = round_to 53 (- 1022) x
      in if 2 ^ 1024 \<le> \<bar>y\<bar> then (if 0 < x then PInf else MInf) else Fin y)"

definition to_single :: "real \<Rightarrow> double" where
  "to_single x =
     (let y = round_to 24 (- 126) x
      in if 2 ^ 128 \<le> \<bar>y\<bar> then (if 0 < x then PInf else MInf) else Fin y)"

definition rd :: "double \<Rightarrow> double" where
  "rd x = (case x of Fin r \<Rightarrow> to_double r | _ \<Rightarrow> x)"

definition rf :: "double \<Rightarrow> double" where
  "rf x = (case x of Fin r \<Rightarrow> to_single r | _ \<Rightarrow> x)"

subsection \<open>The rounded operations\<close>

text \<open>
  The four operations on \<open>double\<close>, the addition on \<open>float\<close>, and the functions of
  \<open>math.h\<close>.  The C standard leaves the accuracy of the functions of \<open>math.h\<close> open;
  here each returns the rounded exact value.  The single precision functions round
  their argument to \<open>float\<close> first.
\<close>

definition add64 :: "double \<Rightarrow> double \<Rightarrow> double" where
  "add64 x y = rd (x + y)"

definition sub64 :: "double \<Rightarrow> double \<Rightarrow> double" where
  "sub64 x y = rd (x - y)"

definition mul64 :: "double \<Rightarrow> double \<Rightarrow> double" where
  "mul64 x y = rd (x * y)"

definition div64 :: "double \<Rightarrow> double \<Rightarrow> double" where
  "div64 x y = rd (x / y)"

definition pow64 :: "double \<Rightarrow> real \<Rightarrow> double" where
  "pow64 x y = rd (pow_d x y)"

definition sin64 :: "double \<Rightarrow> double" where
  "sin64 x = rd (sin_d x)"

definition cos64 :: "double \<Rightarrow> double" where
  "cos64 x = rd (cos_d x)"

definition atan2_64 :: "double \<Rightarrow> double \<Rightarrow> double" where
  "atan2_64 y x = rd (atan2_d y x)"

definition powf32 :: "double \<Rightarrow> real \<Rightarrow> double" where
  "powf32 x y = rf (pow_d (rf x) y)"

definition sqrtf32 :: "double \<Rightarrow> double" where
  "sqrtf32 x = rf (sqrt_d (rf x))"

definition add32 :: "double \<Rightarrow> double \<Rightarrow> double" where
  "add32 x y = rf (x + y)"

subsection \<open>The program text, rounded\<close>

text \<open>
  The constants are the doubles that their decimal literals denote.  \<open>get_bounds\<close>,
  \<open>ray_length_until_intersect\<close>, \<open>max_chroma_for_lh\<close>, \<open>hsluv2lch\<close> and \<open>luv2lch\<close> follow,
  operation by operation in the order in which C evaluates them.
\<close>

definition m_ieee :: "Triplet list" where
  "m_ieee = map (\<lambda>t. \<lparr> Triplet.a = rd (Triplet.a t), Triplet.b = rd (Triplet.b t),
                          Triplet.c = rd (Triplet.c t) \<rparr>) m"

definition pi_ieee :: double where
  "pi_ieee = rd pi_const"

definition kappa_ieee :: double where
  "kappa_ieee = rd kappa"

definition epsilon_ieee :: double where
  "epsilon_ieee = rd epsilon"

definition get_bounds_loops_ieee :: "double \<Rightarrow> double \<Rightarrow> Bounds list" where
  "get_bounds_loops_ieee l sub2 =
     concat (map (\<lambda>channel.
          let m1 = Triplet.a (m_ieee ! channel);
              m2 = Triplet.b (m_ieee ! channel);
              m3 = Triplet.c (m_ieee ! channel)
          in map (\<lambda>t.
               let top1 = mul64 (sub64 (mul64 284517.0 m1) (mul64 94839.0 m3)) sub2;
                   top2 = sub64
                            (mul64 (mul64 (add64 (add64 (mul64 838422.0 m3) (mul64 769860.0 m2))
                                             (mul64 731718.0 m1)) l) sub2)
                            (mul64 (mul64 769860.0 (double_of_int t)) l);
                   bottom = add64 (mul64 (sub64 (mul64 632260.0 m3) (mul64 126452.0 m2)) sub2)
                              (mul64 126452.0 (double_of_int t))
               in \<lparr> Bounds.a = div64 top1 bottom, Bounds.b = div64 top2 bottom \<rparr>)
             [0, 1])
        [0, 1, 2])"

definition get_bounds_ieee :: "double \<Rightarrow> Bounds list" where
  "get_bounds_ieee l =
    (let sub1 = div64 (pow64 (add64 l 16.0) 3.0) 1560896.0;
         sub2 = (if sub1 > epsilon_ieee then sub1 else div64 l kappa_ieee)
     in get_bounds_loops_ieee l sub2)"

definition ray_length_until_intersect_ieee :: "double \<Rightarrow> Bounds \<Rightarrow> double" where
  "ray_length_until_intersect_ieee theta line =
     div64 (Bounds.b line) (sub64 (sin64 theta) (mul64 (Bounds.a line) (cos64 theta)))"

fun max_chroma_loop_ieee :: "double \<Rightarrow> Bounds list \<Rightarrow> double \<Rightarrow> double" where
  "max_chroma_loop_ieee hrad [] min_len = min_len"
| "max_chroma_loop_ieee hrad (bound # bounds) min_len =
     (let l = ray_length_until_intersect_ieee hrad bound
      in max_chroma_loop_ieee hrad bounds
           (if l \<ge> 0 then (if l < min_len then l else min_len) else min_len))"

definition max_chroma_for_lh_ieee :: "double \<Rightarrow> double \<Rightarrow> double" where
  "max_chroma_for_lh_ieee l h =
     (let hrad = mul64 (mul64 (div64 h 360.0) pi_ieee) 2.0
      in max_chroma_loop_ieee hrad (get_bounds_ieee l) FLT_MAX)"

definition hsluv2lch_ieee :: "Triplet \<Rightarrow> Triplet" where
  "hsluv2lch_ieee in_out =
     (let h = Triplet.a in_out;
          s = Triplet.b in_out;
          l = Triplet.c in_out;
          chroma = (if l > rd 99.9999999 \<or> l < rd 0.00000001 then 0.0
                    else mul64 (div64 (max_chroma_for_lh_ieee l h) 100.0) s);
          h = (if s < rd 0.00000001 then 0 else h)
      in \<lparr> Triplet.a = l, Triplet.b = chroma, Triplet.c = h \<rparr>)"

definition luv2lch_ieee :: "Triplet \<Rightarrow> Triplet" where
  "luv2lch_ieee in_out =
     (let l = Triplet.a in_out;
          u = Triplet.b in_out;
          v = Triplet.c in_out;
          chroma = sqrtf32 (add32 (powf32 u 2.0) (powf32 v 2.0));
          h = (if chroma < rd 0.00000001 then 0
               else let h = mul64 (atan2_64 v u) (div64 (div64 360.0 2.0) pi_ieee)
                    in if h < 0.0 then add64 h 360.0 else h)
      in \<lparr> Triplet.a = l, Triplet.b = chroma, Triplet.c = h \<rparr>)"

section \<open>Notions used to state the properties\<close>

text \<open>
  The six values that the loop of \<open>max_chroma_for_lh\<close> considers, one for each line of
  \<open>get_bounds\<close>, and the six distances that the loop of \<open>max_safe_chroma_for_l\<close>
  considers.
\<close>

definition ray_lengths :: "double \<Rightarrow> double \<Rightarrow> double list" where
  "ray_lengths l h =
     map (ray_length_until_intersect (h / 360.0 * pi_const * 2.0)) (get_bounds l)"

definition pole_distances :: "double \<Rightarrow> double list" where
  "pole_distances l = map pole_distance (get_bounds l)"

text \<open>
  \<open>r\<close> is the minimum of the entries of \<open>vs\<close> that are \<open>\<ge> 0\<close>: it is one of them, and
  it is below every other one.  (An entry \<open>NaN\<close> is not \<open>\<ge> 0\<close>.)
\<close>

definition least_nonneg :: "double list \<Rightarrow> double \<Rightarrow> bool" where
  "least_nonneg vs r = (r \<in> set vs \<and> 0 \<le> r \<and> (\<forall>v\<in>set vs. 0 \<le> v \<longrightarrow> r \<le> v))"

text \<open>The running minimum that both loops keep, over the list of the values they compute.\<close>

fun select_min :: "double list \<Rightarrow> double \<Rightarrow> double" where
  "select_min [] min_len = min_len"
| "select_min (v # vs) min_len =
     select_min vs (if v \<ge> 0 then (if v < min_len then v else min_len) else min_len)"

text \<open>
  \<open>d\<close> is the distance from the origin to the point \<open>(x, y)\<close> where the line
  \<open>y = slope * x + intercept\<close> meets its perpendicular through the origin, and no point
  of the line is closer to the origin.
\<close>

definition foot_distance :: "real \<Rightarrow> real \<Rightarrow> real \<Rightarrow> bool" where
  "foot_distance slope intercept d =
     (\<exists>x y. y = slope * x + intercept \<and> x + slope * y = 0 \<and> d = sqrt (x\<^sup>2 + y\<^sup>2)
        \<and> (\<forall>u. d \<le> sqrt (u\<^sup>2 + (slope * u + intercept)\<^sup>2)))"

text \<open>
  \<open>luv2xyz\<close> and \<open>xyz2luv\<close> once more, each returning with its result the divisors of
  the divisions that it performs, in the order of the program text.  (The divisions by
  a literal inside \<open>l2y\<close> are left out.)
\<close>

definition luv2xyz_traced :: "Triplet \<Rightarrow> Triplet \<times> double list" where
  "luv2xyz_traced in_out =
     (if Triplet.a in_out \<le> 0.00000001
      then (\<lparr> Triplet.a = 0.0, Triplet.b = 0.0, Triplet.c = 0.0 \<rparr>, [])
      else
        let d1 = 13.0 * Triplet.a in_out;
            var_u = Triplet.b in_out / d1 + ref_u;
            d2 = 13.0 * Triplet.a in_out;
            var_v = Triplet.c in_out / d2 + ref_v;
            y = l2y (Triplet.a in_out);
            d3 = (var_u - 4.0) * var_v - var_u * var_v;
            x = - (9.0 * y * var_u) / d3;
            d4 = 3 * var_v;
            z = (9.0 * y - (15.0 * var_v * y) - (var_v * x)) / d4
        in (\<lparr> Triplet.a = x, Triplet.b = y, Triplet.c = z \<rparr>, [d1, d2, d3, d4]))"

definition xyz2luv_traced :: "Triplet \<Rightarrow> Triplet \<times> double list" where
  "xyz2luv_traced in_out =
     (let d1 = Triplet.a in_out + (15.0 * Triplet.b in_out) + (3.0 * Triplet.c in_out);
          var_u = (4.0 * Triplet.a in_out) / d1;
          d2 = Triplet.a in_out + (15.0 * Triplet.b in_out) + (3.0 * Triplet.c in_out);
          var_v = (9.0 * Triplet.b in_out) / d2;
          l = y2l (Triplet.b in_out);
          u = 13.0 * l * (var_u - ref_u);
          v = 13.0 * l * (var_v - ref_v)
      in (if l < 0.00000001
          then \<lparr> Triplet.a = l, Triplet.b = 0.0, Triplet.c = 0.0 \<rparr>
          else \<lparr> Triplet.a = l, Triplet.b = u, Triplet.c = v \<rparr>, [d1, d2]))"

text \<open>The six values that the loop of \<open>max_chroma_for_lh\<close> considers, rounded.\<close>

definition ray_lengths_ieee :: "double \<Rightarrow> double \<Rightarrow> double list" where
  "ray_lengths_ieee l h =
     map (ray_length_until_intersect_ieee (mul64 (mul64 (div64 h 360.0) pi_ieee) 2.0))
       (get_bounds_ieee l)"

section \<open>Arithmetic of \<open>double\<close>\<close>

lemma numeral_double: "(numeral k :: double) = Fin (numeral k)"
proof (induction k)
  case One
  show ?case by (simp only: numeral.simps one_double_def)
next
  case (Bit0 k)
  have "(numeral (num.Bit0 k) :: double) = numeral k + numeral k"
    by (simp only: numeral.simps)
  also have "\<dots> = Fin (numeral k + numeral k)" by (simp only: Bit0 plus_double.simps)
  also have "\<dots> = Fin (numeral (num.Bit0 k))" by (simp only: numeral.simps)
  finally show ?case .
next
  case (Bit1 k)
  have "(numeral (num.Bit1 k) :: double) = numeral k + numeral k + 1"
    by (simp only: numeral.simps)
  also have "\<dots> = Fin (numeral k + numeral k + 1)"
    by (simp only: Bit1 plus_double.simps one_double_def)
  also have "\<dots> = Fin (numeral (num.Bit1 k))" by (simp only: numeral.simps)
  finally show ?case .
qed

lemma power_double: "(Fin x) ^ n = Fin (x ^ n)"
  by (induction n) (simp_all add: one_double_def)

lemmas double_arith = numeral_double power_double zero_double_def one_double_def
  minus_double_def double_of_int_def is_int_def

lemmas program_constants = m_def m_inv_def pi_const_def ref_u_def ref_v_def kappa_def
  epsilon_def FLT_MAX_def

lemma Fin_divide_numeral: "Fin x / Fin (numeral k) = Fin (x / numeral k)"
  by simp

lemma zero_le_double: "(0 \<le> v) = (v = PInf \<or> (\<exists>x. v = Fin x \<and> 0 \<le> x))"
  by (cases v) (simp_all add: zero_double_def)

lemma less_Fin_double: "(v < Fin M) = (v = MInf \<or> (\<exists>x. v = Fin x \<and> x < M))"
  by (cases v) simp_all

lemma Fin_le_double: "(Fin r \<le> v) = (v = PInf \<or> (\<exists>x. v = Fin x \<and> r \<le> x))"
  by (cases v) simp_all

lemma not_less_Fin_double:
  assumes "0 \<le> v" "\<not> v < Fin M" "r \<le> M"
  shows "Fin r \<le> v"
  using assms by (cases v) (simp_all add: zero_double_def)

lemma less_not_ge_double: "d < Fin M \<Longrightarrow> \<not> Fin M \<le> d"
  by (cases d) simp_all

lemma infinite_quotient: "PInf / d \<noteq> Fin 0" "MInf / d \<noteq> Fin 0" "NaN / d \<noteq> Fin 0"
  by (cases d; simp)+

lemma to_float_in_range:
  assumes "\<bar>r\<bar> < 340282356779733661637539395458142568448"
  shows "to_float (Fin r) = Fin r"
proof -
  from assms have "\<not> 340282356779733661637539395458142568448 \<le> r"
    and "\<not> r \<le> - 340282356779733661637539395458142568448"
    by linarith+
  then show ?thesis by (simp add: to_float_def)
qed

lemma cosf_sinf_in_range:
  assumes "\<bar>r\<bar> < 340282356779733661637539395458142568448"
  shows "cosf (Fin r) = Fin (cos r)" and "sinf (Fin r) = Fin (sin r)"
  unfolding cosf_def sinf_def to_float_in_range [OF assms] by simp_all

lemma lch2luv_zero_chroma:
  assumes "\<bar>h\<bar> \<le> 10 ^ 40"
  shows "lch2luv \<lparr>Triplet.a = l, Triplet.b = 0, Triplet.c = Fin h\<rparr> =
           \<lparr>Triplet.a = l, Triplet.b = 0, Triplet.c = 0\<rparr>"
proof -
  define hrad where "hrad = h * (2 * 3.14159265358979323846 / 360)"
  have e: "Fin h * (2.0 * pi_const / 360.0) = Fin hrad"
    unfolding hrad_def by (simp add: double_arith program_constants)
  have "\<bar>hrad\<bar> = \<bar>h\<bar> * (2 * 3.14159265358979323846 / 360)"
    unfolding hrad_def by (simp add: abs_mult)
  also have "\<dots> \<le> 10 ^ 40 * (2 * 3.14159265358979323846 / 360)"
    using assms by (intro mult_right_mono) simp_all
  also have "\<dots> < 340282356779733661637539395458142568448" by simp
  finally have r: "\<bar>hrad\<bar> < 340282356779733661637539395458142568448" .
  show ?thesis
    unfolding lch2luv_def Let_def
    by (simp add: e cosf_sinf_in_range [OF r] zero_double_def)
qed

section \<open>Rounding\<close>

text \<open>Powers of two, and the exponent of a number.\<close>

lemma pow2_powr: "pow2 e = 2 powr (of_int e)"
proof (cases "0 \<le> e")
  case True
  then have "(2 :: real) powr (of_int e) = 2 powr (real (nat e))" by simp
  also have "\<dots> = 2 ^ nat e" by (rule powr_realpow) simp
  finally show ?thesis using True by (simp add: pow2_def)
next
  case False
  then have "(2 :: real) powr (of_int e) = 2 powr (- real (nat (- e)))" by simp
  also have "\<dots> = inverse (2 powr (real (nat (- e))))" by (rule powr_minus)
  also have "(2 :: real) powr (real (nat (- e))) = 2 ^ nat (- e)" by (rule powr_realpow) simp
  finally show ?thesis using False by (simp add: pow2_def inverse_eq_divide)
qed

lemma pow2_pos: "0 < pow2 e"
  by (simp add: pow2_powr)

lemma pow2_mono: "e \<le> f \<Longrightarrow> pow2 e \<le> pow2 f"
  by (simp add: pow2_powr)

lemma pow2_strict_mono: "e < f \<Longrightarrow> pow2 e < pow2 f"
  by (simp add: pow2_powr)

lemma pow2_add: "pow2 (e + f) = pow2 e * pow2 f"
  by (simp add: pow2_powr powr_add)

lemma binade_eq:
  assumes "pow2 e \<le> \<bar>x\<bar>" and "\<bar>x\<bar> < pow2 (e + 1)"
  shows "binade x = e"
proof -
  from assms(1) pow2_pos [of e] have "0 < \<bar>x\<bar>" by linarith
  then show ?thesis
    unfolding binade_def using assms
    by (simp add: floor_log_eq_powr_iff pow2_powr)
qed

text \<open>
  Evaluation: a number that lies in the binade \<open>e\<close> and within half a quantum of
  \<open>k\<close> quanta rounds to \<open>k\<close> quanta.
\<close>

lemma round_even_near:
  assumes "\<bar>r - of_int k\<bar> < 1 / 2 \<or> (\<bar>r - of_int k\<bar> = 1 / 2 \<and> even k)"
  shows "round_even r = k"
proof -
  from assms have 1: "of_int k - 1 / 2 \<le> r" and 2: "r \<le> of_int k + 1 / 2" by linarith+
  show ?thesis
  proof (cases "of_int k \<le> r")
    case True
    have f: "\<lfloor>r\<rfloor> = k"
    proof (rule floor_unique)
      show "of_int k \<le> r" by (rule True)
      show "r < of_int k + 1" using 2 by linarith
    qed
    show ?thesis
    proof (cases "r - of_int k < 1 / 2")
      case True
      then show ?thesis by (simp add: round_even_def Let_def f)
    next
      case False
      with 2 have e: "r - of_int k = 1 / 2" by linarith
      with assms have "even k" by auto
      with e show ?thesis by (simp add: round_even_def Let_def f)
    qed
  next
    case False
    from 1 have "of_int (k - 1) \<le> r" by simp
    moreover from False have "r < of_int (k - 1) + 1" by simp
    ultimately have f: "\<lfloor>r\<rfloor> = k - 1" by (rule floor_unique)
    show ?thesis
    proof (cases "of_int k - r < 1 / 2")
      case True
      then have "1 / 2 < r - of_int \<lfloor>r\<rfloor>" unfolding f by simp
      then show ?thesis unfolding round_even_def Let_def f by simp
    next
      case False
      with 1 have e: "r - of_int (k - 1) = 1 / 2" by simp
      from False 1 assms have "even k" by auto
      then have "odd (k - 1)" by simp
      with e show ?thesis unfolding round_even_def Let_def f by simp
    qed
  qed
qed

lemma round_to_eval:
  assumes "pow2 e \<le> \<bar>x\<bar>" and "\<bar>x\<bar> < pow2 (e + 1)" and "emin \<le> e"
    and "\<bar>x / pow2 (e - p + 1) - of_int k\<bar> < 1 / 2
           \<or> (\<bar>x / pow2 (e - p + 1) - of_int k\<bar> = 1 / 2 \<and> even k)"
  shows "round_to p emin x = of_int k * pow2 (e - p + 1)"
proof -
  from assms(1) pow2_pos [of e] have "x \<noteq> 0" by auto
  moreover have "binade x = e" using assms(1,2) by (rule binade_eq)
  moreover have "max e emin = e" using assms(3) by simp
  ultimately show ?thesis
    unfolding round_to_def Let_def by (simp add: round_even_near [OF assms(4)])
qed

lemma rounded_magnitude:
  assumes "\<bar>x\<bar> < pow2 (e + 1)"
    and "\<bar>x / pow2 (e - p + 1) - of_int k\<bar> \<le> 1 / 2" and "0 < p"
  shows "\<bar>of_int k * pow2 (e - p + 1)\<bar> \<le> pow2 (e + 1)"
proof -
  define q where "q = pow2 (e - p + 1)"
  have q: "0 < q" unfolding q_def by (rule pow2_pos)
  have "pow2 (e - p + 1 + p) = q * pow2 p" unfolding q_def by (rule pow2_add)
  moreover have "e - p + 1 + p = e + 1" by simp
  moreover have "pow2 p = 2 ^ nat p" using assms(3) by (simp add: pow2_def)
  ultimately have s: "pow2 (e + 1) = q * 2 ^ nat p" by metis
  have "\<bar>x / q\<bar> < pow2 (e + 1) / q"
    using assms(1) q by (simp add: divide_strict_right_mono abs_divide)
  also have "pow2 (e + 1) / q = 2 ^ nat p"
    using s q by simp
  finally have "\<bar>x / q\<bar> < 2 ^ nat p" .
  with assms(2) have "\<bar>of_int k :: real\<bar> < 2 ^ nat p + 1 / 2" unfolding q_def by linarith
  then have "(of_int \<bar>k\<bar> :: real) < of_int (2 ^ nat p + 1)" by simp
  then have "\<bar>k\<bar> < 2 ^ nat p + 1" by (simp only: of_int_less_iff)
  then have "\<bar>k\<bar> \<le> 2 ^ nat p" by simp
  then have "(of_int \<bar>k\<bar> :: real) \<le> of_int (2 ^ nat p)" by (simp only: of_int_le_iff)
  then have "\<bar>of_int k :: real\<bar> \<le> 2 ^ nat p" by simp
  then have "\<bar>of_int k * q\<bar> \<le> 2 ^ nat p * q"
    using q by (simp add: abs_mult mult_right_mono)
  also have "\<dots> = pow2 (e + 1)" using s by simp
  finally show ?thesis unfolding q_def .
qed

lemma to_double_eval:
  assumes "pow2 e \<le> \<bar>x\<bar>" and "\<bar>x\<bar> < pow2 (e + 1)" and "- 1022 \<le> e" and "e \<le> 1022"
    and "\<bar>x / pow2 (e - 52) - of_int k\<bar> < 1 / 2
           \<or> (\<bar>x / pow2 (e - 52) - of_int k\<bar> = 1 / 2 \<and> even k)"
  shows "to_double x = Fin (of_int k * pow2 (e - 52))"
proof -
  have r: "round_to 53 (- 1022) x = of_int k * pow2 (e - 52)"
    using round_to_eval [of e x "- 1022" 53 k] assms by simp
  from assms(5) have "\<bar>x / pow2 (e - 53 + 1) - of_int k\<bar> \<le> 1 / 2" by auto
  with assms(2) have "\<bar>of_int k * pow2 (e - 53 + 1)\<bar> \<le> pow2 (e + 1)"
    by (intro rounded_magnitude) simp_all
  also have "\<dots> \<le> pow2 1023"
    using assms(4) by (intro pow2_mono) simp
  also have "\<dots> < 2 ^ 1024" by (simp add: pow2_def)
  finally have "\<not> 2 ^ 1024 \<le> \<bar>of_int k * pow2 (e - 52)\<bar>" by simp
  then show ?thesis unfolding to_double_def Let_def r by simp
qed

lemma to_single_eval:
  assumes "pow2 e \<le> \<bar>x\<bar>" and "\<bar>x\<bar> < pow2 (e + 1)" and "- 126 \<le> e" and "e \<le> 126"
    and "\<bar>x / pow2 (e - 23) - of_int k\<bar> < 1 / 2
           \<or> (\<bar>x / pow2 (e - 23) - of_int k\<bar> = 1 / 2 \<and> even k)"
  shows "to_single x = Fin (of_int k * pow2 (e - 23))"
proof -
  have r: "round_to 24 (- 126) x = of_int k * pow2 (e - 23)"
    using round_to_eval [of e x "- 126" 24 k] assms by simp
  from assms(5) have "\<bar>x / pow2 (e - 24 + 1) - of_int k\<bar> \<le> 1 / 2" by auto
  with assms(2) have "\<bar>of_int k * pow2 (e - 24 + 1)\<bar> \<le> pow2 (e + 1)"
    by (intro rounded_magnitude) simp_all
  also have "\<dots> \<le> pow2 127"
    using assms(4) by (intro pow2_mono) simp
  also have "\<dots> < 2 ^ 128" by (simp add: pow2_def)
  finally have "\<not> 2 ^ 128 \<le> \<bar>of_int k * pow2 (e - 23)\<bar>" by simp
  then show ?thesis unfolding to_single_def Let_def r by simp
qed

lemma to_double_zero: "to_double 0 = Fin 0"
  by (simp add: to_double_def round_to_def)

lemma round_even_of_int: "round_even (of_int n) = n"
  by (rule round_even_near) simp

lemma round_even_floor:
  "\<lfloor>r\<rfloor> \<le> round_even r" "round_even r \<le> \<lfloor>r\<rfloor> + 1"
  by (simp_all add: round_even_def Let_def)

lemma round_even_mono:
  assumes "r \<le> s"
  shows "round_even r \<le> round_even s"
proof (cases "\<lfloor>r\<rfloor> = \<lfloor>s\<rfloor>")
  case True
  from assms have "r - of_int \<lfloor>r\<rfloor> \<le> s - of_int \<lfloor>r\<rfloor>" by simp
  then show ?thesis
    unfolding round_even_def Let_def True [symmetric] by auto
next
  case False
  from assms have "\<lfloor>r\<rfloor> \<le> \<lfloor>s\<rfloor>" by (rule floor_mono)
  with False have "\<lfloor>r\<rfloor> + 1 \<le> \<lfloor>s\<rfloor>" by simp
  with round_even_floor(2) [of r] round_even_floor(1) [of s] show ?thesis by linarith
qed

lemma round_even_error: "\<bar>of_int (round_even r) - r\<bar> \<le> 1 / 2"
proof -
  have "of_int \<lfloor>r\<rfloor> \<le> r" "r < of_int \<lfloor>r\<rfloor> + 1" by linarith+
  then show ?thesis
    unfolding round_even_def Let_def by (auto simp add: abs_le_iff) 
qed

lemma binade_bounds:
  assumes "x \<noteq> 0"
  shows "pow2 (binade x) \<le> \<bar>x\<bar>" and "\<bar>x\<bar> < pow2 (binade x + 1)"
proof -
  from assms have "0 < \<bar>x\<bar>" by simp
  then have "2 powr (of_int (binade x)) \<le> \<bar>x\<bar> \<and> \<bar>x\<bar> < 2 powr (of_int (binade x + 1))"
    using floor_log_eq_powr_iff [of "\<bar>x\<bar>" 2 "binade x"] unfolding binade_def by simp
  then show "pow2 (binade x) \<le> \<bar>x\<bar>" and "\<bar>x\<bar> < pow2 (binade x + 1)"
    by (simp_all add: pow2_powr)
qed

lemma binade_mono:
  assumes "0 < x" and "x \<le> y"
  shows "binade x \<le> binade y"
  unfolding binade_def using assms by (intro floor_mono) simp

text \<open>Rounding to double precision: the quantum of a number, range, monotonicity, error.\<close>

lemma round_to_double_unfold:
  assumes "x \<noteq> 0"
  shows "round_to 53 (- 1022) x =
           of_int (round_even (x / pow2 (max (binade x) (- 1022) - 52)))
             * pow2 (max (binade x) (- 1022) - 52)"
  using assms by (simp add: round_to_def Let_def)

lemma quantum_scale:
  "pow2 (e + 1) = pow2 (e - 52) * of_int (2 ^ 53)"
  "pow2 e = pow2 (e - 52) * of_int (2 ^ 52)"
proof -
  have "pow2 (e - 52 + 53) = pow2 (e - 52) * pow2 53" by (rule pow2_add)
  moreover have "pow2 53 = of_int (2 ^ 53)" by (simp add: pow2_def)
  moreover have "e - 52 + 53 = e + 1" by simp
  ultimately show "pow2 (e + 1) = pow2 (e - 52) * of_int (2 ^ 53)" by metis
  have "pow2 (e - 52 + 52) = pow2 (e - 52) * pow2 52" by (rule pow2_add)
  moreover have "pow2 52 = of_int (2 ^ 52)" by (simp add: pow2_def)
  moreover have "e - 52 + 52 = e" by simp
  ultimately show "pow2 e = pow2 (e - 52) * of_int (2 ^ 52)" by metis
qed

lemma round_to_double_upper:
  assumes "0 < x"
  shows "round_to 53 (- 1022) x \<le> pow2 (max (binade x) (- 1022) + 1)"
proof -
  define e where "e = max (binade x) (- 1022)"
  define q where "q = pow2 (e - 52)"
  have q: "0 < q" unfolding q_def by (rule pow2_pos)
  from assms have "x \<noteq> 0" by simp
  from binade_bounds(2) [OF this] assms have "x < pow2 (binade x + 1)" by simp
  also have "\<dots> \<le> pow2 (e + 1)" unfolding e_def by (intro pow2_mono) simp
  also have "\<dots> = q * of_int (2 ^ 53)" unfolding q_def by (rule quantum_scale)
  finally have "x / q \<le> of_int (2 ^ 53)"
    using q by (simp add: field_simps)
  then have "round_even (x / q) \<le> round_even (of_int (2 ^ 53))" by (rule round_even_mono)
  then have "round_even (x / q) \<le> 2 ^ 53" unfolding round_even_of_int .
  then have "(of_int (round_even (x / q)) :: real) \<le> of_int (2 ^ 53)"
    by (simp only: of_int_le_iff)
  then have "of_int (round_even (x / q)) * q \<le> of_int (2 ^ 53) * q"
    using q by (intro mult_right_mono) simp_all
  also have "\<dots> = pow2 (e + 1)" unfolding q_def quantum_scale(1) [of e] by simp
  finally show ?thesis
    unfolding round_to_double_unfold [OF \<open>x \<noteq> 0\<close>] q_def e_def .
qed

lemma round_to_double_lower:
  assumes "0 < x" and "- 1022 \<le> binade x"
  shows "pow2 (binade x) \<le> round_to 53 (- 1022) x"
proof -
  define e where "e = binade x"
  define q where "q = pow2 (e - 52)"
  have q: "0 < q" unfolding q_def by (rule pow2_pos)
  have m: "max (binade x) (- 1022) = e" unfolding e_def using assms(2) by simp
  from assms have "x \<noteq> 0" by simp
  from binade_bounds(1) [OF this] assms have "pow2 e \<le> x" unfolding e_def by simp
  then have "q * of_int (2 ^ 52) \<le> x" unfolding q_def quantum_scale(2) [of e] .
  then have "of_int (2 ^ 52) \<le> x / q"
    using q by (simp add: field_simps)
  then have "round_even (of_int (2 ^ 52)) \<le> round_even (x / q)" by (rule round_even_mono)
  then have "2 ^ 52 \<le> round_even (x / q)" unfolding round_even_of_int .
  then have "(of_int (2 ^ 52) :: real) \<le> of_int (round_even (x / q))"
    by (simp only: of_int_le_iff)
  then have "of_int (2 ^ 52) * q \<le> of_int (round_even (x / q)) * q"
    using q by (intro mult_right_mono) simp_all
  moreover have "of_int (2 ^ 52) * q = pow2 e" unfolding q_def quantum_scale(2) [of e] by simp
  ultimately show ?thesis
    unfolding round_to_double_unfold [OF \<open>x \<noteq> 0\<close>] m q_def e_def by simp
qed

lemma round_to_double_nonneg:
  assumes "0 \<le> x"
  shows "0 \<le> round_to 53 (- 1022) x"
proof (cases "x = 0")
  case True
  then show ?thesis by (simp add: round_to_def)
next
  case False
  define q where "q = pow2 (max (binade x) (- 1022) - 52)"
  have q: "0 < q" unfolding q_def by (rule pow2_pos)
  with assms have "0 \<le> x / q" by simp
  then have "round_even (of_int 0) \<le> round_even (x / q)" by (intro round_even_mono) simp
  then have "0 \<le> round_even (x / q)" unfolding round_even_of_int .
  then show ?thesis
    unfolding round_to_double_unfold [OF False] q_def [symmetric] using q by simp
qed

lemma round_to_double_mono:
  assumes "0 \<le> x" and "x \<le> y"
  shows "round_to 53 (- 1022) x \<le> round_to 53 (- 1022) y"
proof (cases "x = 0")
  case True
  from assms have "0 \<le> y" by simp
  then have "0 \<le> round_to 53 (- 1022) y" by (rule round_to_double_nonneg)
  then show ?thesis unfolding True by (simp add: round_to_def)
next
  case False
  with assms have x: "0 < x" and y: "0 < y" by simp_all
  then have nz: "x \<noteq> 0" "y \<noteq> 0" by simp_all
  define ex where "ex = max (binade x) (- 1022)"
  define ey where "ey = max (binade y) (- 1022)"
  from binade_mono [OF x assms(2)] have le: "ex \<le> ey" unfolding ex_def ey_def by simp
  show ?thesis
  proof (cases "ex = ey")
    case True
    define q where "q = pow2 (ex - 52)"
    have q: "0 < q" unfolding q_def by (rule pow2_pos)
    from assms(2) q have "x / q \<le> y / q" by (simp add: divide_right_mono)
    then have "round_even (x / q) \<le> round_even (y / q)" by (rule round_even_mono)
    then have "(of_int (round_even (x / q)) :: real) \<le> of_int (round_even (y / q))"
      by (simp only: of_int_le_iff)
    then have "of_int (round_even (x / q)) * q \<le> of_int (round_even (y / q)) * q"
      using q by (intro mult_right_mono) simp_all
    then show ?thesis
      unfolding round_to_double_unfold [OF nz(1)] round_to_double_unfold [OF nz(2)]
        ex_def [symmetric] ey_def [symmetric] True [symmetric] q_def .
  next
    case False
    with le have lt: "ex + 1 \<le> ey" by simp
    have "- 1022 \<le> ex" unfolding ex_def by simp
    with lt have "- 1022 < ey" by simp
    then have b: "binade y = ey" "- 1022 \<le> binade y" unfolding ey_def by simp_all
    have "round_to 53 (- 1022) x \<le> pow2 (ex + 1)"
      unfolding ex_def by (rule round_to_double_upper [OF x])
    also have "\<dots> \<le> pow2 ey" using lt by (rule pow2_mono)
    also have "\<dots> \<le> round_to 53 (- 1022) y"
      unfolding b(1) [symmetric] by (rule round_to_double_lower [OF y b(2)])
    finally show ?thesis .
  qed
qed

lemma round_to_double_error:
  "\<bar>round_to 53 (- 1022) x - x\<bar> \<le> \<bar>x\<bar> / 2 ^ 53 + 1 / 2 ^ 1075"
proof (cases "x = 0")
  case True
  then show ?thesis by (simp add: round_to_def)
next
  case False
  define e where "e = max (binade x) (- 1022)"
  define q where "q = pow2 (e - 52)"
  have q: "0 < q" unfolding q_def by (rule pow2_pos)
  have "of_int (round_even (x / q)) * q - x = (of_int (round_even (x / q)) - x / q) * q"
    using q by (simp add: field_simps)
  then have "\<bar>of_int (round_even (x / q)) * q - x\<bar> = \<bar>of_int (round_even (x / q)) - x / q\<bar> * q"
    using q by (simp add: abs_mult)
  also have "\<dots> \<le> 1 / 2 * q"
    using q round_even_error [of "x / q"] by (intro mult_right_mono) simp_all
  finally have err: "\<bar>round_to 53 (- 1022) x - x\<bar> \<le> q / 2"
    unfolding round_to_double_unfold [OF False] e_def [symmetric] q_def [symmetric] by simp
  define d :: real where "d = 1 / 2 ^ 1075"
  have d: "0 \<le> d" unfolding d_def by simp
  have "\<bar>round_to 53 (- 1022) x - x\<bar> \<le> \<bar>x\<bar> / 2 ^ 53 + d"
  proof (cases "- 1022 \<le> binade x")
    case True
    then have e: "e = binade x" unfolding e_def by simp
    from binade_bounds(1) [OF False] have "q * of_int (2 ^ 52) \<le> \<bar>x\<bar>"
      unfolding q_def e quantum_scale(2) [of "binade x"] .
    then have "q / 2 \<le> \<bar>x\<bar> / 2 ^ 53" by simp
    with err d show ?thesis by linarith
  next
    case False
    then have e: "e = - 1022" unfolding e_def by simp
    have "q / 2 = d" unfolding q_def e d_def by (simp add: pow2_def)
    moreover have "0 \<le> \<bar>x\<bar> / 2 ^ 53" by simp
    ultimately show ?thesis using err by linarith
  qed
  then show ?thesis unfolding d_def .
qed

lemma to_double_finite:
  assumes "\<bar>x\<bar> \<le> 10 ^ 300"
  shows "to_double x = Fin (round_to 53 (- 1022) x)"
proof -
  have "\<bar>round_to 53 (- 1022) x\<bar> \<le> \<bar>round_to 53 (- 1022) x - x\<bar> + \<bar>x\<bar>" by linarith
  also have "\<dots> \<le> \<bar>x\<bar> / 2 ^ 53 + 1 / 2 ^ 1075 + \<bar>x\<bar>"
    using round_to_double_error [of x] by linarith
  also have "\<dots> \<le> \<bar>x\<bar> + 1 + \<bar>x\<bar>"
  proof -
    have "\<bar>x\<bar> / 2 ^ 53 \<le> \<bar>x\<bar>" by (simp add: field_simps)
    moreover have "(1 :: real) / 2 ^ 1075 \<le> 1" by simp
    ultimately show ?thesis by linarith
  qed
  also have "\<dots> \<le> 10 ^ 300 + 1 + 10 ^ 300" using assms by linarith
  also have "\<dots> < 2 ^ 1024" by simp
  finally have "\<not> 2 ^ 1024 \<le> \<bar>round_to 53 (- 1022) x\<bar>" by simp
  then show ?thesis unfolding to_double_def Let_def by simp
qed

lemma to_double_mono:
  assumes "0 \<le> x" and "x \<le> y" and "\<bar>y\<bar> \<le> 10 ^ 300"
  shows "to_double x \<le> to_double y"
proof -
  from assms have "\<bar>x\<bar> \<le> 10 ^ 300" by simp
  then show ?thesis
    unfolding to_double_finite [OF assms(3)] to_double_finite [OF \<open>\<bar>x\<bar> \<le> 10 ^ 300\<close>]
    using round_to_double_mono [OF assms(1,2)] by simp
qed

section \<open>The running minimum of the two loops\<close>

lemma max_chroma_loop_select:
  "max_chroma_loop hrad bounds min_len =
     select_min (map (ray_length_until_intersect hrad) bounds) min_len"
  by (induction bounds arbitrary: min_len) (simp_all add: Let_def)

lemma max_safe_chroma_loop_select:
  "max_safe_chroma_loop bounds min_len = select_min (map pole_distance bounds) min_len"
  by (induction bounds arbitrary: min_len) (simp_all add: Let_def)

lemma select_min_step_in:
  assumes "0 \<le> v" "v < Fin M"
  obtains x where "v = Fin x" "0 \<le> x" "x < M" "select_min (v # vs) (Fin M) = select_min vs (Fin x)"
proof -
  from assms obtain x where x: "v = Fin x" "0 \<le> x" "x < M"
    by (cases v) (simp_all add: zero_double_def)
  have "select_min (v # vs) (Fin M) = select_min vs (Fin x)"
    using x by (simp add: zero_double_def)
  with x show ?thesis using that by blast
qed

lemma select_min_step_out:
  assumes "\<not> (0 \<le> v \<and> v < Fin M)"
  shows "select_min (v # vs) (Fin M) = select_min vs (Fin M)"
  using assms by auto

lemma select_min_char:
  "\<exists>r. select_min vs (Fin M) = Fin r \<and> r \<le> M
     \<and> (r = M \<or> (Fin r \<in> set vs \<and> 0 \<le> r))
     \<and> (\<forall>v\<in>set vs. 0 \<le> v \<longrightarrow> Fin r \<le> v)"
proof (induction vs arbitrary: M)
  case Nil
  show ?case by simp
next
  case (Cons v vs)
  show ?case
  proof (cases "0 \<le> v \<and> v < Fin M")
    case True
    then obtain x where x: "v = Fin x" "0 \<le> x" "x < M"
      and step: "select_min (v # vs) (Fin M) = select_min vs (Fin x)"
      using select_min_step_in [of v M vs] by metis
    from Cons.IH [of x] obtain r where r1: "select_min vs (Fin x) = Fin r" and r2: "r \<le> x"
      and r3: "r = x \<or> (Fin r \<in> set vs \<and> 0 \<le> r)"
      and r4: "\<forall>v\<in>set vs. 0 \<le> v \<longrightarrow> Fin r \<le> v"
      by (elim exE conjE)
    have a: "select_min (v # vs) (Fin M) = Fin r"
      using step r1 by simp
    have b: "r \<le> M" using r2 x(3) by simp
    have c: "r = M \<or> (Fin r \<in> set (v # vs) \<and> 0 \<le> r)"
      using r3 x(1) x(2) by auto
    have d: "\<forall>w\<in>set (v # vs). 0 \<le> w \<longrightarrow> Fin r \<le> w"
      using r4 r2 x(1) by simp
    from a b c d show ?thesis by (intro exI [of _ r] conjI)
  next
    case False
    from Cons.IH [of M] obtain r where r1: "select_min vs (Fin M) = Fin r" and r2: "r \<le> M"
      and r3: "r = M \<or> (Fin r \<in> set vs \<and> 0 \<le> r)"
      and r4: "\<forall>v\<in>set vs. 0 \<le> v \<longrightarrow> Fin r \<le> v"
      by (elim exE conjE)
    have a: "select_min (v # vs) (Fin M) = Fin r"
      using select_min_step_out [OF False] r1 by simp
    have c: "r = M \<or> (Fin r \<in> set (v # vs) \<and> 0 \<le> r)"
      using r3 by auto
    have e: "0 \<le> v \<longrightarrow> Fin r \<le> v"
      using False not_less_Fin_double [of v M r] r2 by blast
    have d: "\<forall>w\<in>set (v # vs). 0 \<le> w \<longrightarrow> Fin r \<le> w"
      using r4 e by simp
    from a r2 c d show ?thesis by (intro exI [of _ r] conjI)
  qed
qed

lemma select_min_none:
  "\<forall>v\<in>set vs. \<not> (0 \<le> v \<and> v < min_len) \<Longrightarrow> select_min vs min_len = min_len"
  by (induction vs) auto

lemma select_min_capped:
  assumes "cap = Fin M"
  shows "(least_nonneg vs (select_min vs cap) \<and> select_min vs cap < cap)
     \<or> (select_min vs cap = cap \<and> (\<forall>v\<in>set vs. 0 \<le> v \<longrightarrow> cap \<le> v))"
proof -
  from select_min_char [of vs M]
  obtain r where r1: "select_min vs (Fin M) = Fin r" and r2: "r \<le> M"
    and r3: "r = M \<or> (Fin r \<in> set vs \<and> 0 \<le> r)"
    and r4: "\<forall>v\<in>set vs. 0 \<le> v \<longrightarrow> Fin r \<le> v"
    by (elim exE conjE)
  show ?thesis
  proof (cases "r = M")
    case True
    then show ?thesis unfolding assms r1 using r4 by simp
  next
    case False
    with r3 have "Fin r \<in> set vs" "0 \<le> r" by simp_all
    moreover from False r2 have "r < M" by simp
    ultimately show ?thesis unfolding assms r1 least_nonneg_def using r4
      by (simp add: zero_double_def)
  qed
qed

lemma max_chroma_for_lh_select:
  "max_chroma_for_lh l h = select_min (ray_lengths l h) FLT_MAX"
  by (simp add: max_chroma_for_lh_def ray_lengths_def max_chroma_loop_select Let_def)

lemma max_safe_chroma_for_l_select:
  "max_safe_chroma_for_l l = select_min (pole_distances l) FLT_MAX"
  by (simp add: max_safe_chroma_for_l_def pole_distances_def max_safe_chroma_loop_select)

section \<open>The lines of \<open>get_bounds\<close>\<close>

lemma get_bounds_length: "length (get_bounds l) = 6"
  by (simp add: get_bounds_def get_bounds_loops_def Let_def)

lemma sub2_nonzero:
  assumes "l \<noteq> 0"
  shows "\<exists>s. s \<noteq> 0 \<and> get_bounds (Fin l) = get_bounds_loops (Fin l) (Fin s)"
proof (cases "pow_d (Fin l + 16.0) 3.0 / 1560896.0 > epsilon")
  case True
  have e: "pow_d (Fin l + 16.0) 3.0 / 1560896.0 = Fin ((l + 16) ^ 3 / 1560896)"
    by (simp add: double_arith)
  have "0.0088564516790356308 < (l + 16) ^ 3 / 1560896"
    using True unfolding e by (simp add: double_arith program_constants)
  moreover have "(0::real) < 0.0088564516790356308" by simp
  ultimately have "0 < (l + 16) ^ 3 / 1560896" by (rule less_trans [rotated])
  then have "(l + 16) ^ 3 / 1560896 \<noteq> 0" by (rule less_imp_neq [THEN not_sym])
  moreover have "get_bounds (Fin l) = get_bounds_loops (Fin l) (Fin ((l + 16) ^ 3 / 1560896))"
    using True unfolding get_bounds_def Let_def e by simp
  ultimately show ?thesis by blast
next
  case False
  have e: "Fin l / kappa = Fin (l / 903.2962962962963)"
    by (simp add: double_arith program_constants)
  have "l / 903.2962962962963 \<noteq> 0" using assms by simp
  moreover have "get_bounds (Fin l) = get_bounds_loops (Fin l) (Fin (l / 903.2962962962963))"
    using False unfolding get_bounds_def Let_def e by simp
  ultimately show ?thesis by blast
qed

lemma sub2_range:
  assumes "0.00000001 < L" and "L < 99.9999999"
  shows "\<exists>s. 0 < s \<and> s < 0.9999999975 \<and> get_bounds (Fin L) = get_bounds_loops (Fin L) (Fin s)"
proof (cases "pow_d (Fin L + 16.0) 3.0 / 1560896.0 > epsilon")
  case True
  have e: "pow_d (Fin L + 16.0) 3.0 / 1560896.0 = Fin ((L + 16) ^ 3 / 1560896)"
    by (simp add: double_arith)
  have "0 < L + 16" using assms(1) by simp
  then have p: "0 < (L + 16) ^ 3 / 1560896" by simp
  have "(L + 16) ^ 3 < (115.9999999 :: real) ^ 3"
    using assms by (intro power_strict_mono) simp_all
  also have "\<dots> < 0.9999999975 * 1560896" by (simp add: power3_eq_cube)
  finally have "(L + 16) ^ 3 / 1560896 < 0.9999999975" by simp
  moreover have "get_bounds (Fin L) = get_bounds_loops (Fin L) (Fin ((L + 16) ^ 3 / 1560896))"
    using True unfolding get_bounds_def Let_def e by simp
  ultimately show ?thesis using p by blast
next
  case False
  have e: "Fin L / kappa = Fin (L / 903.2962962962963)"
    by (simp add: double_arith program_constants)
  have "0 < L / 903.2962962962963" using assms(1) by simp
  moreover have "L / 903.2962962962963 < 0.9999999975" using assms(2) by simp
  moreover have "get_bounds (Fin L) = get_bounds_loops (Fin L) (Fin (L / 903.2962962962963))"
    using False unfolding get_bounds_def Let_def e by simp
  ultimately show ?thesis by blast
qed

lemma first_bound:
  assumes "s \<noteq> 0"
  shows "\<exists>a0 b0. get_bounds_loops (Fin l) (Fin s) ! 0 = \<lparr>Bounds.a = Fin a0, Bounds.b = Fin b0\<rparr>
            \<and> \<bar>b0\<bar> \<le> 7 * \<bar>l\<bar>"
  using assms
  by (simp add: get_bounds_loops_def double_arith program_constants Let_def)

lemma lines_at_zero_face:
  assumes "s \<noteq> 0"
  shows "get_bounds_loops (Fin L) (Fin s) ! 0 =
           \<lparr>Bounds.a = Fin (- (766614043950492561 / 95567062389492290)),
            Bounds.b = Fin (- (96232500000000001478880 / 302116154331901976377) / 50 * L)\<rparr>"
    and "get_bounds_loops (Fin L) (Fin s) ! 2 =
           \<lparr>Bounds.a = Fin (8847857898749445309 / 6672768857887370540),
            Bounds.b = Fin (- (1924650000000000056141865 / 10547312095219672244051) / 50 * L)\<rparr>"
    and "get_bounds_loops (Fin L) (Fin s) ! 4 =
           \<lparr>Bounds.a = Fin (- (2670243825455693319 / 21955338120413478280)),
            Bounds.b = Fin (1924650000000000072448155 / 34703705200031564443282 / 50 * L)\<rparr>"
  using assms
  by (simp_all add: get_bounds_loops_def double_arith program_constants Let_def)

lemma top2_nonzero:
  fixes L s K :: real
  assumes "L \<noteq> 0" and "0 < s" and "s < 0.9999999975" and "0 < K" and "K \<le> 769860.0000001"
  shows "K * L * s - 769860 * L \<noteq> 0"
proof -
  have "K * s \<le> 769860.0000001 * s"
    using assms(2) assms(5) by (intro mult_right_mono) simp_all
  also have "\<dots> < 769860.0000001 * 0.9999999975"
    using assms(3) by (intro mult_strict_left_mono) simp_all
  also have "\<dots> < 769860" by simp
  finally have "K * s - 769860 \<noteq> 0" by simp
  with assms(1) have "L * (K * s - 769860) \<noteq> 0" by simp
  then show ?thesis by (simp add: algebra_simps)
qed

lemma bounds_shape:
  assumes "L \<noteq> 0" and "0 < s" and "s < 0.9999999975"
  shows "\<forall>bound\<in>set (get_bounds_loops (Fin L) (Fin s)).
           \<exists>t1 t2 bt. Bounds.a bound = Fin t1 / Fin bt \<and> Bounds.b bound = Fin t2 / Fin bt
              \<and> t2 \<noteq> 0"
proof -
  have 1: "601453125000000009243 * L * s / 781250000000000 - 769860 * L \<noteq> 0"
    using top2_nonzero [OF assms, of "601453125000000009243 / 781250000000000"] by simp
  have 2: "384930000000000011228373 * L * s / 500000000000000000 - 769860 * L \<noteq> 0"
    using top2_nonzero [OF assms, of "384930000000000011228373 / 500000000000000000"] by simp
  have 3: "384930000000000014489631 * L * s / 500000000000000000 - 769860 * L \<noteq> 0"
    using top2_nonzero [OF assms, of "384930000000000014489631 / 500000000000000000"] by simp
  show ?thesis
    using assms(1) assms(2)
    apply (simp add: get_bounds_loops_def program_constants double_arith Let_def
        Fin_divide_numeral del: divide_double.simps)
    apply (intro conjI exI; (rule refl)?)
    using 1 2 3 by simp_all
qed

section \<open>The fallback of the two loops\<close>

text \<open>
  Claim C10.  When none of the six values that \<open>max_chroma_for_lh\<close> considers is
  non-negative, the function returns \<open>FLT_MAX\<close>, the value that the running minimum
  starts from, and \<open>max_safe_chroma_for_l\<close> does the same when none of its six distances
  is non-negative.  \<open>FLT_MAX\<close> is about \<open>3.4e38\<close>.
\<close>

theorem sentinel_fallback:
  "((\<forall>v\<in>set (ray_lengths l h). \<not> 0 \<le> v) \<longrightarrow> max_chroma_for_lh l h = FLT_MAX)
   \<and> ((\<forall>d\<in>set (pole_distances l'). \<not> 0 \<le> d) \<longrightarrow> max_safe_chroma_for_l l' = FLT_MAX)
   \<and> (\<exists>M. FLT_MAX = Fin M \<and> 3.4 * 10 ^ 38 < M \<and> M < 3.41 * 10 ^ 38)"
proof (intro conjI impI)
  assume "\<forall>v\<in>set (ray_lengths l h). \<not> 0 \<le> v"
  then have "\<forall>v\<in>set (ray_lengths l h). \<not> (0 \<le> v \<and> v < FLT_MAX)" by simp
  then show "max_chroma_for_lh l h = FLT_MAX"
    unfolding max_chroma_for_lh_select by (rule select_min_none)
next
  assume "\<forall>d\<in>set (pole_distances l'). \<not> 0 \<le> d"
  then have "\<forall>d\<in>set (pole_distances l'). \<not> (0 \<le> d \<and> d < FLT_MAX)" by simp
  then show "max_safe_chroma_for_l l' = FLT_MAX"
    unfolding max_safe_chroma_for_l_select by (rule select_min_none)
next
  show "\<exists>M. FLT_MAX = Fin M \<and> 3.4 * 10 ^ 38 < M \<and> M < 3.41 * 10 ^ 38"
    by (simp add: FLT_MAX_def)
qed

text \<open>
  The fallback is taken at lightness 0 and hue 0, where all six values are \<open>NaN\<close> (they
  are quotients \<open>0 / 0\<close>); for \<open>max_safe_chroma_for_l\<close> it needs a lightness that is
  not a number.
\<close>

theorem sentinel_fallback_witness:
  "ray_lengths 0 0 = [NaN, NaN, NaN, NaN, NaN, NaN] \<and> max_chroma_for_lh 0 0 = FLT_MAX
   \<and> pole_distances NaN = [NaN, NaN, NaN, NaN, NaN, NaN]
   \<and> max_safe_chroma_for_l NaN = FLT_MAX"
proof -
  have v1: "ray_lengths 0 0 = [NaN, NaN, NaN, NaN, NaN, NaN]"
    by (simp add: ray_lengths_def get_bounds_def get_bounds_loops_def
        ray_length_until_intersect_def double_arith program_constants Let_def)
  have v2: "pole_distances NaN = [NaN, NaN, NaN, NaN, NaN, NaN]"
    by (simp add: pole_distances_def get_bounds_def get_bounds_loops_def pole_distance_def
        intersect_line_line_def dist_from_pole_def double_arith program_constants Let_def)
  have h1: "\<forall>v\<in>set (ray_lengths 0 0). \<not> 0 \<le> v"
    unfolding v1 by (simp add: zero_double_def)
  have h2: "\<forall>d\<in>set (pole_distances NaN). \<not> 0 \<le> d"
    unfolding v2 by (simp add: zero_double_def)
  from sentinel_fallback [of 0 0 NaN] h1 h2 v1 v2 show ?thesis by blast
qed

section \<open>The maximum chroma for a lightness and a hue\<close>

lemma some_direction:
  fixes k s :: real
  assumes "k\<^sup>2 + s\<^sup>2 = 1"
  shows "s - (- (766614043950492561 / 95567062389492290)) * k \<le> - (1 / 2)
       \<or> s - (8847857898749445309 / 6672768857887370540) * k \<le> - (1 / 2)
       \<or> 1 / 2 \<le> s - (- (2670243825455693319 / 21955338120413478280)) * k"
proof (rule ccontr)
  assume n: "\<not> ?thesis"
  then have 1: "- (1 / 2) < s - (- (766614043950492561 / 95567062389492290)) * k"
    and 2: "- (1 / 2) < s - (8847857898749445309 / 6672768857887370540) * k"
    and 3: "s - (- (2670243825455693319 / 21955338120413478280)) * k < 1 / 2"
    by simp_all
  from 1 2 3 have k: "- (7 / 10) < k" "k < 7 / 10" by linarith+
  from 1 2 3 have s: "- (7 / 10) < s" "s < 7 / 10" by linarith+
  from k have "\<bar>k\<bar> < 7 / 10" by simp
  then have "\<bar>k\<bar>\<^sup>2 < (7 / 10)\<^sup>2" by (intro power_strict_mono) simp_all
  then have k2: "k\<^sup>2 < 49 / 100" by (simp add: power2_eq_square)
  from s have "\<bar>s\<bar> < 7 / 10" by simp
  then have "\<bar>s\<bar>\<^sup>2 < (7 / 10)\<^sup>2" by (intro power_strict_mono) simp_all
  then have s2: "s\<^sup>2 < 49 / 100" by (simp add: power2_eq_square)
  from k2 s2 have "k\<^sup>2 + s\<^sup>2 < 1" by simp
  with assms show False by simp
qed

lemma quotient_sign:
  fixes f L d :: real
  assumes "(f \<le> 0 \<and> 0 \<le> L \<and> d \<le> - (1 / 2)) \<or> (0 \<le> f \<and> 0 \<le> L \<and> 1 / 2 \<le> d)
     \<or> (f \<le> 0 \<and> L \<le> 0 \<and> 1 / 2 \<le> d) \<or> (0 \<le> f \<and> L \<le> 0 \<and> d \<le> - (1 / 2))"
  shows "1 / 2 \<le> \<bar>d\<bar>" and "0 \<le> f * L / d"
  using assms by (auto simp: zero_le_divide_iff zero_le_mult_iff mult_le_0_iff)

lemma ray_candidate:
  assumes "bound \<in> set bounds"
    and "Bounds.a bound = Fin a0" and "Bounds.b bound = Fin b0"
    and "1 / 2 \<le> \<bar>sin t - a0 * cos t\<bar>"
    and "0 \<le> b0 / (sin t - a0 * cos t)"
    and "\<bar>b0\<bar> \<le> 10 ^ 38"
  shows "\<exists>v\<in>set (map (ray_length_until_intersect (Fin t)) bounds). 0 \<le> v \<and> v < FLT_MAX"
proof -
  define d where "d = sin t - a0 * cos t"
  from assms(4) have d: "d \<noteq> 0" "1 / 2 \<le> \<bar>d\<bar>" unfolding d_def by auto
  have v: "ray_length_until_intersect (Fin t) bound = Fin (b0 / d)"
    using d(1) unfolding ray_length_until_intersect_def assms(2) assms(3) d_def
    by (simp add: minus_double_def)
  have "\<bar>b0 / d\<bar> = \<bar>b0\<bar> / \<bar>d\<bar>" by simp
  also have "\<dots> \<le> \<bar>b0\<bar> / (1 / 2)"
    using d(2) by (intro divide_left_mono) simp_all
  also have "\<dots> \<le> 2 * 10 ^ 38" using assms(6) by simp
  finally have "\<bar>b0 / d\<bar> \<le> 2 * 10 ^ 38" .
  then have "b0 / d \<le> 2 * 10 ^ 38" by (rule order_trans [OF abs_ge_self])
  then have "Fin (b0 / d) < FLT_MAX" by (simp add: FLT_MAX_def)
  moreover have "0 \<le> Fin (b0 / d)"
    using assms(5) unfolding d_def by (simp add: zero_double_def)
  ultimately show ?thesis using assms(1) v by force
qed

lemma qualifying_ray:
  assumes "L \<noteq> 0" and "\<bar>L\<bar> \<le> 10 ^ 37"
  shows "\<exists>v\<in>set (ray_lengths (Fin L) (Fin h)). 0 \<le> v \<and> v < FLT_MAX"
proof -
  from sub2_nonzero [OF assms(1)] obtain s
    where s: "s \<noteq> 0" "get_bounds (Fin L) = get_bounds_loops (Fin L) (Fin s)"
    by blast
  define t where "t = h * 3.14159265358979323846 / 180"
  define bounds where "bounds = get_bounds_loops (Fin L) (Fin s)"
  define aR :: real where "aR = - (766614043950492561 / 95567062389492290)"
  define aG :: real where "aG = 8847857898749445309 / 6672768857887370540"
  define aB :: real where "aB = - (2670243825455693319 / 21955338120413478280)"
  define fR :: real where "fR = - (96232500000000001478880 / 302116154331901976377) / 50"
  define fG :: real where "fG = - (1924650000000000056141865 / 10547312095219672244051) / 50"
  define fB :: real where "fB = 1924650000000000072448155 / 34703705200031564443282 / 50"
  have f: "fR \<le> 0" "\<bar>fR\<bar> \<le> 7" "fG \<le> 0" "\<bar>fG\<bar> \<le> 7" "0 \<le> fB" "\<bar>fB\<bar> \<le> 7"
    unfolding fR_def fG_def fB_def by simp_all
  have "Fin h / 360.0 * pi_const * 2.0 = Fin t"
    unfolding t_def by (simp add: double_arith program_constants)
  then have rl: "ray_lengths (Fin L) (Fin h) = map (ray_length_until_intersect (Fin t)) bounds"
    unfolding ray_lengths_def s(2) bounds_def by simp
  have "length bounds = 6"
    unfolding bounds_def by (simp add: get_bounds_loops_def Let_def)
  then have mem: "bounds ! 0 \<in> set bounds" "bounds ! 2 \<in> set bounds" "bounds ! 4 \<in> set bounds"
    by simp_all
  have lines: "bounds ! 0 = \<lparr>Bounds.a = Fin aR, Bounds.b = Fin (fR * L)\<rparr>"
    "bounds ! 2 = \<lparr>Bounds.a = Fin aG, Bounds.b = Fin (fG * L)\<rparr>"
    "bounds ! 4 = \<lparr>Bounds.a = Fin aB, Bounds.b = Fin (fB * L)\<rparr>"
    unfolding bounds_def aR_def aG_def aB_def fR_def fG_def fB_def
    by (rule lines_at_zero_face [OF s(1)])+
  have cand: "\<exists>v\<in>set (ray_lengths (Fin L) (Fin h)). 0 \<le> v \<and> v < FLT_MAX"
    if "bound \<in> set bounds" and "bound = \<lparr>Bounds.a = Fin a0, Bounds.b = Fin (f * L)\<rparr>"
      and "\<bar>f\<bar> \<le> 7"
      and "(f \<le> 0 \<and> 0 \<le> L \<and> sin t - a0 * cos t \<le> - (1 / 2))
         \<or> (0 \<le> f \<and> 0 \<le> L \<and> 1 / 2 \<le> sin t - a0 * cos t)
         \<or> (f \<le> 0 \<and> L \<le> 0 \<and> 1 / 2 \<le> sin t - a0 * cos t)
         \<or> (0 \<le> f \<and> L \<le> 0 \<and> sin t - a0 * cos t \<le> - (1 / 2))"
    for bound a0 f
  proof -
    have "\<bar>f * L\<bar> \<le> 7 * 10 ^ 37"
      unfolding abs_mult using that(3) assms(2) by (intro mult_mono) simp_all
    then have 1: "\<bar>f * L\<bar> \<le> 10 ^ 38" by simp
    have 2: "Bounds.a bound = Fin a0" "Bounds.b bound = Fin (f * L)"
      unfolding that(2) by simp_all
    show ?thesis unfolding rl
      by (rule ray_candidate [OF that(1) 2 quotient_sign [OF that(4)] 1])
  qed
  show ?thesis
  proof (cases "0 < L")
    case True
    have "(cos t)\<^sup>2 + (sin t)\<^sup>2 = 1" by simp
    from some_direction [OF this, folded aR_def aG_def aB_def]
    consider "sin t - aR * cos t \<le> - (1 / 2)" | "sin t - aG * cos t \<le> - (1 / 2)"
      | "1 / 2 \<le> sin t - aB * cos t"
      by blast
    then show ?thesis
    proof cases
      case 1
      with True f show ?thesis by (intro cand [OF mem(1) lines(1)]) simp_all
    next
      case 2
      with True f show ?thesis by (intro cand [OF mem(2) lines(2)]) simp_all
    next
      case 3
      with True f show ?thesis by (intro cand [OF mem(3) lines(3)]) simp_all
    qed
  next
    case False
    with assms(1) have neg: "L < 0" by simp
    have "(- cos t)\<^sup>2 + (- sin t)\<^sup>2 = 1" by simp
    from some_direction [OF this, folded aR_def aG_def aB_def]
    consider "1 / 2 \<le> sin t - aR * cos t" | "1 / 2 \<le> sin t - aG * cos t"
      | "sin t - aB * cos t \<le> - (1 / 2)"
      by (elim disjE) simp_all
    then show ?thesis
    proof cases
      case 1
      with neg f show ?thesis by (intro cand [OF mem(1) lines(1)]) simp_all
    next
      case 2
      with neg f show ?thesis by (intro cand [OF mem(2) lines(2)]) simp_all
    next
      case 3
      with neg f show ?thesis by (intro cand [OF mem(3) lines(3)]) simp_all
    qed
  qed
qed

lemma max_chroma_50_0:
  "max_chroma_for_lh 50 0 = Fin (4277000000000000124759700 / 31078592417018468283713)"
  by (simp add: max_chroma_for_lh_def get_bounds_def get_bounds_loops_def
      ray_length_until_intersect_def double_arith program_constants Let_def)

text \<open>
  Claim C4, amended.  \<open>max_chroma_for_lh\<close> converts the hue from degrees to radians,
  computes for each of the six lines of \<open>get_bounds\<close> the value
  \<open>intercept / (sin hrad - slope * cos hrad)\<close>, and returns the minimum of the values that
  are \<open>\<ge> 0\<close> when that minimum is below \<open>FLT_MAX\<close>.  Otherwise, that is when no value is
  \<open>\<ge> 0\<close> or all such values are at least \<open>FLT_MAX\<close>, it returns \<open>FLT_MAX\<close>.  For every
  hue and every lightness of magnitude between \<open>1e-300\<close> and \<open>1e37\<close> the first case
  holds: the function returns the minimum of the values that are \<open>\<ge> 0\<close>.
\<close>

theorem max_chroma_for_lh_capped:
  "Fin h' / 360.0 * pi_const * 2.0 = Fin (h' * 3.14159265358979323846 / 180)
   \<and> ray_lengths l h =
       map (\<lambda>bound. Bounds.b bound / (sin_d (h / 360.0 * pi_const * 2.0)
              - Bounds.a bound * cos_d (h / 360.0 * pi_const * 2.0))) (get_bounds l)
   \<and> length (ray_lengths l h) = 6
   \<and> ((least_nonneg (ray_lengths l h) (max_chroma_for_lh l h) \<and> max_chroma_for_lh l h < FLT_MAX)
      \<or> (max_chroma_for_lh l h = FLT_MAX
          \<and> (\<forall>v\<in>set (ray_lengths l h). 0 \<le> v \<longrightarrow> FLT_MAX \<le> v)))
   \<and> (1 / 10 ^ 300 \<le> \<bar>L\<bar> \<and> \<bar>L\<bar> \<le> 10 ^ 37 \<longrightarrow>
        least_nonneg (ray_lengths (Fin L) (Fin h')) (max_chroma_for_lh (Fin L) (Fin h')))"
proof (intro conjI impI)
  show "Fin h' / 360.0 * pi_const * 2.0 = Fin (h' * 3.14159265358979323846 / 180)"
    by (simp add: double_arith program_constants)
  show "ray_lengths l h =
       map (\<lambda>bound. Bounds.b bound / (sin_d (h / 360.0 * pi_const * 2.0)
              - Bounds.a bound * cos_d (h / 360.0 * pi_const * 2.0))) (get_bounds l)"
    by (simp add: ray_lengths_def ray_length_until_intersect_def)
  show "length (ray_lengths l h) = 6"
    by (simp add: ray_lengths_def get_bounds_length)
  show "(least_nonneg (ray_lengths l h) (max_chroma_for_lh l h) \<and> max_chroma_for_lh l h < FLT_MAX)
      \<or> (max_chroma_for_lh l h = FLT_MAX
          \<and> (\<forall>v\<in>set (ray_lengths l h). 0 \<le> v \<longrightarrow> FLT_MAX \<le> v))"
    unfolding max_chroma_for_lh_select by (rule select_min_capped) (simp add: FLT_MAX_def)
next
  assume "1 / 10 ^ 300 \<le> \<bar>L\<bar> \<and> \<bar>L\<bar> \<le> 10 ^ 37"
  moreover have "(0 :: real) < 1 / 10 ^ 300" by simp
  ultimately have "L \<noteq> 0 \<and> \<bar>L\<bar> \<le> 10 ^ 37" by auto
  then obtain v where v: "v \<in> set (ray_lengths (Fin L) (Fin h'))" "0 \<le> v" "v < FLT_MAX"
    using qualifying_ray by blast
  have "\<not> (\<forall>v\<in>set (ray_lengths (Fin L) (Fin h')). 0 \<le> v \<longrightarrow> FLT_MAX \<le> v)"
    using v less_not_ge_double [of v] unfolding FLT_MAX_def by blast
  moreover have "(least_nonneg (ray_lengths (Fin L) (Fin h'))
          (select_min (ray_lengths (Fin L) (Fin h')) FLT_MAX)
        \<and> select_min (ray_lengths (Fin L) (Fin h')) FLT_MAX < FLT_MAX)
     \<or> (select_min (ray_lengths (Fin L) (Fin h')) FLT_MAX = FLT_MAX
        \<and> (\<forall>v\<in>set (ray_lengths (Fin L) (Fin h')). 0 \<le> v \<longrightarrow> FLT_MAX \<le> v))"
    by (rule select_min_capped) (simp add: FLT_MAX_def)
  ultimately show "least_nonneg (ray_lengths (Fin L) (Fin h')) (max_chroma_for_lh (Fin L) (Fin h'))"
    unfolding max_chroma_for_lh_select by blast
qed

text \<open>
  At lightness 50 and hue 0 the minimum is the value of the third line; lightness 50 and
  hue 120 is another input with a lightness in that range.
\<close>

theorem max_chroma_for_lh_capped_witness:
  "max_chroma_for_lh 50 0 = Fin (4277000000000000124759700 / 31078592417018468283713)
   \<and> least_nonneg (ray_lengths 50 0) (max_chroma_for_lh 50 0)
   \<and> least_nonneg (ray_lengths (Fin 50) (Fin 120)) (max_chroma_for_lh (Fin 50) (Fin 120))"
proof -
  have "max_chroma_for_lh 50 0 \<noteq> FLT_MAX"
    unfolding max_chroma_50_0 by (simp add: FLT_MAX_def)
  moreover have "1 / 10 ^ 300 \<le> \<bar>50::real\<bar> \<and> \<bar>50::real\<bar> \<le> 10 ^ 37" by simp
  ultimately show ?thesis
    using max_chroma_for_lh_capped [of 120 50 0 50] max_chroma_50_0 by blast
qed

text \<open>
  The claim as it is written fails at lightness 0 and hue 0: all six values are \<open>NaN\<close>,
  none is \<open>\<ge> 0\<close>, and the function returns \<open>FLT_MAX\<close>, which is not one of the values.
\<close>

theorem max_chroma_for_lh_not_least:
  "\<not> least_nonneg (ray_lengths 0 0) (max_chroma_for_lh 0 0)"
proof -
  have v1: "ray_lengths 0 0 = [NaN, NaN, NaN, NaN, NaN, NaN]"
    by (simp add: ray_lengths_def get_bounds_def get_bounds_loops_def
        ray_length_until_intersect_def double_arith program_constants Let_def)
  show ?thesis unfolding least_nonneg_def v1 by (simp add: zero_double_def)
qed

section \<open>The maximum chroma for a lightness\<close>

lemma foot_of_perpendicular:
  fixes a0 b0 :: real
  defines "x \<equiv> - (a0 * b0) / (1 + a0\<^sup>2)" and "y \<equiv> b0 / (1 + a0\<^sup>2)"
  shows "y = a0 * x + b0" and "x + a0 * y = 0" and "x\<^sup>2 + y\<^sup>2 = b0\<^sup>2 / (1 + a0\<^sup>2)"
proof -
  have p: "1 + a0\<^sup>2 \<noteq> 0" by (metis add_pos_nonneg less_numeral_extra(1) less_irrefl zero_le_power2)
  show "y = a0 * x + b0" using p unfolding x_def y_def
    by (simp add: field_simps power2_eq_square)
  show "x + a0 * y = 0" unfolding x_def y_def
    by (simp add: field_simps)
  have "x\<^sup>2 + y\<^sup>2 = (b0\<^sup>2 * (1 + a0\<^sup>2)) / (1 + a0\<^sup>2)\<^sup>2"
    unfolding x_def y_def by (simp add: power_divide power_mult_distrib algebra_simps add_divide_distrib)
  also have "\<dots> = b0\<^sup>2 / (1 + a0\<^sup>2)"
    using p by (simp add: power2_eq_square)
  finally show "x\<^sup>2 + y\<^sup>2 = b0\<^sup>2 / (1 + a0\<^sup>2)" .
qed

lemma line_point_distance:
  fixes a0 b0 u :: real
  shows "\<bar>b0\<bar> / sqrt (1 + a0\<^sup>2) \<le> sqrt (u\<^sup>2 + (a0 * u + b0)\<^sup>2)"
proof -
  have pos: "0 < 1 + a0\<^sup>2" by (simp add: add_pos_nonneg)
  have "(1 + a0\<^sup>2) * (u\<^sup>2 + (a0 * u + b0)\<^sup>2) - b0\<^sup>2 = (u + a0 * (a0 * u + b0))\<^sup>2"
    by (simp add: power2_eq_square algebra_simps)
  then have "b0\<^sup>2 \<le> (1 + a0\<^sup>2) * (u\<^sup>2 + (a0 * u + b0)\<^sup>2)"
    by (metis diff_ge_0_iff_ge zero_le_power2)
  then have "sqrt (b0\<^sup>2) \<le> sqrt ((1 + a0\<^sup>2) * (u\<^sup>2 + (a0 * u + b0)\<^sup>2))"
    by (rule real_sqrt_le_mono)
  then have "\<bar>b0\<bar> \<le> sqrt (1 + a0\<^sup>2) * sqrt (u\<^sup>2 + (a0 * u + b0)\<^sup>2)"
    by (simp add: real_sqrt_mult)
  moreover have "0 < sqrt (1 + a0\<^sup>2)" using pos by simp
  ultimately show ?thesis by (simp add: field_simps)
qed

lemma foot_distance_formula: "foot_distance a0 b0 (\<bar>b0\<bar> / sqrt (1 + a0\<^sup>2))"
proof -
  define x where "x = - (a0 * b0) / (1 + a0\<^sup>2)"
  define y where "y = b0 / (1 + a0\<^sup>2)"
  have 1: "y = a0 * x + b0" and 2: "x + a0 * y = 0"
    and 3: "x\<^sup>2 + y\<^sup>2 = b0\<^sup>2 / (1 + a0\<^sup>2)"
    unfolding x_def y_def by (rule foot_of_perpendicular)+
  have 4: "\<bar>b0\<bar> / sqrt (1 + a0\<^sup>2) = sqrt (x\<^sup>2 + y\<^sup>2)"
    unfolding 3 by (simp add: real_sqrt_divide)
  show ?thesis unfolding foot_distance_def
    using 1 2 4 line_point_distance [of b0 a0] by blast
qed

lemma pole_distance_finite:
  assumes "Bounds.a bound = Fin a0" and "Bounds.b bound = Fin b0"
  shows "pole_distance bound = Fin (\<bar>b0\<bar> / sqrt (1 + a0\<^sup>2))"
proof (cases "a0 = 0")
  case True
  then show ?thesis using assms
    by (simp add: pole_distance_def intersect_line_line_def dist_from_pole_def double_arith
        Let_def)
next
  case False
  have p: "0 < 1 + a0\<^sup>2" by (simp add: add_pos_nonneg)
  have d: "- 1 / a0 - a0 = - (1 + a0\<^sup>2) / a0"
    using False by (simp add: field_simps power2_eq_square)
  then have dn: "- 1 / a0 - a0 \<noteq> 0" using False p by simp
  define x where "x = b0 / (- 1 / a0 - a0)"
  have x: "x = - (a0 * b0) / (1 + a0\<^sup>2)"
    unfolding x_def d using False p by (simp add: field_simps)
  have y: "b0 + x * a0 = b0 / (1 + a0\<^sup>2)"
    unfolding x using p by (simp add: field_simps power2_eq_square)
  have "pole_distance bound = Fin (sqrt (x * x + (b0 + x * a0) * (b0 + x * a0)))"
    using assms False dn unfolding x_def
    by (simp add: pole_distance_def intersect_line_line_def dist_from_pole_def double_arith
        Let_def not_less)
  also have "x * x + (b0 + x * a0) * (b0 + x * a0) = b0\<^sup>2 / (1 + a0\<^sup>2)"
    unfolding y using foot_of_perpendicular(3) [of a0 b0] unfolding x
    by (simp add: power2_eq_square)
  also have "sqrt (b0\<^sup>2 / (1 + a0\<^sup>2)) = \<bar>b0\<bar> / sqrt (1 + a0\<^sup>2)"
    by (simp add: real_sqrt_divide)
  finally show ?thesis .
qed

lemma pole_distances_zero: "pole_distances (Fin 0) = [NaN, Fin 0, NaN, Fin 0, NaN, Fin 0]"
  by (simp add: pole_distances_def get_bounds_def get_bounds_loops_def pole_distance_def
      intersect_line_line_def dist_from_pole_def double_arith program_constants Let_def)

lemma qualifying_distance:
  assumes "\<bar>l\<bar> \<le> 10 ^ 37"
  shows "\<exists>d\<in>set (pole_distances (Fin l)). 0 \<le> d \<and> d < FLT_MAX"
proof (cases "l = 0")
  case True
  show ?thesis unfolding True pole_distances_zero
    by (simp add: zero_double_def FLT_MAX_def)
next
  case False
  then obtain s where s: "s \<noteq> 0" "get_bounds (Fin l) = get_bounds_loops (Fin l) (Fin s)"
    using sub2_nonzero by blast
  from first_bound [OF s(1), of l] obtain a0 b0
    where ab: "get_bounds_loops (Fin l) (Fin s) ! 0 = \<lparr>Bounds.a = Fin a0, Bounds.b = Fin b0\<rparr>"
      and b0: "\<bar>b0\<bar> \<le> 7 * \<bar>l\<bar>"
    by blast
  define bound where "bound = get_bounds (Fin l) ! 0"
  have "bound \<in> set (get_bounds (Fin l))"
    unfolding bound_def by (rule nth_mem) (simp add: get_bounds_length)
  then have mem: "pole_distance bound \<in> set (pole_distances (Fin l))"
    by (simp add: pole_distances_def)
  have "Bounds.a bound = Fin a0" "Bounds.b bound = Fin b0"
    unfolding bound_def s(2) ab by simp_all
  then have d: "pole_distance bound = Fin (\<bar>b0\<bar> / sqrt (1 + a0\<^sup>2))"
    by (rule pole_distance_finite)
  have "1 \<le> sqrt (1 + a0\<^sup>2)" by simp
  then have "\<bar>b0\<bar> / sqrt (1 + a0\<^sup>2) \<le> \<bar>b0\<bar>"
    by (smt (verit) abs_ge_zero divide_le_eq_1_pos mult_left_le_one_le divide_nonneg_nonneg
        real_sqrt_ge_zero times_divide_eq_right zero_le_one nonzero_mult_div_cancel_left
        mult_cancel_left1 divide_le_eq)
  also have "\<dots> \<le> 7 * 10 ^ 37" using b0 assms by simp
  finally have "\<bar>b0\<bar> / sqrt (1 + a0\<^sup>2) \<le> 7 * 10 ^ 37" .
  moreover have "0 \<le> \<bar>b0\<bar> / sqrt (1 + a0\<^sup>2)" by simp
  ultimately have "0 \<le> pole_distance bound \<and> pole_distance bound < FLT_MAX"
    unfolding d by (simp add: zero_double_def FLT_MAX_def)
  with mem show ?thesis by blast
qed

text \<open>
  Claim C5, amended.  For every lightness \<open>l\<close> that is a number of magnitude up to \<open>1e37\<close>,
  \<open>max_safe_chroma_for_l\<close> returns the minimum of the distances that are \<open>\<ge> 0\<close>, over the
  six lines of \<open>get_bounds\<close>; and the distance of a line is the distance from the origin to
  the point where the line meets its perpendicular through the origin, which is the
  point of the line closest to the origin.
\<close>

theorem max_safe_chroma_for_l_least:
  "(\<bar>l\<bar> \<le> 10 ^ 37 \<longrightarrow>
      least_nonneg (pole_distances (Fin l)) (max_safe_chroma_for_l (Fin l)))
   \<and> length (pole_distances (Fin l)) = 6
   \<and> (\<forall>bound\<in>set (get_bounds (Fin l)). \<forall>slope intercept.
        Bounds.a bound = Fin slope \<and> Bounds.b bound = Fin intercept \<longrightarrow>
        (\<exists>d. pole_distance bound = Fin d \<and> foot_distance slope intercept d))"
proof (intro conjI impI ballI allI)
  assume "\<bar>l\<bar> \<le> 10 ^ 37"
  then obtain d where d: "d \<in> set (pole_distances (Fin l))" "0 \<le> d" "d < FLT_MAX"
    using qualifying_distance by blast
  have "\<not> (\<forall>v\<in>set (pole_distances (Fin l)). 0 \<le> v \<longrightarrow> FLT_MAX \<le> v)"
    using d less_not_ge_double [of d] unfolding FLT_MAX_def by blast
  moreover have "(least_nonneg (pole_distances (Fin l)) (select_min (pole_distances (Fin l)) FLT_MAX)
        \<and> select_min (pole_distances (Fin l)) FLT_MAX < FLT_MAX)
     \<or> (select_min (pole_distances (Fin l)) FLT_MAX = FLT_MAX
        \<and> (\<forall>v\<in>set (pole_distances (Fin l)). 0 \<le> v \<longrightarrow> FLT_MAX \<le> v))"
    by (rule select_min_capped) (simp add: FLT_MAX_def)
  ultimately show "least_nonneg (pole_distances (Fin l)) (max_safe_chroma_for_l (Fin l))"
    unfolding max_safe_chroma_for_l_select by blast
next
  show "length (pole_distances (Fin l)) = 6"
    by (simp add: pole_distances_def get_bounds_length)
next
  fix bound :: Bounds and slope intercept
  assume "Bounds.a bound = Fin slope \<and> Bounds.b bound = Fin intercept"
  then have "pole_distance bound = Fin (\<bar>intercept\<bar> / sqrt (1 + slope\<^sup>2))"
    by (simp add: pole_distance_finite)
  then show "\<exists>d. pole_distance bound = Fin d \<and> foot_distance slope intercept d"
    using foot_distance_formula by blast
qed

text \<open>At lightness 50, with the first of the six lines.\<close>

theorem max_safe_chroma_for_l_least_witness:
  "\<bar>50::real\<bar> \<le> 10 ^ 37
   \<and> least_nonneg (pole_distances (Fin 50)) (max_safe_chroma_for_l (Fin 50))
   \<and> get_bounds (Fin 50) ! 0 =
       \<lparr>Bounds.a = Fin (- (766614043950492561 / 95567062389492290)),
        Bounds.b = Fin (- (96232500000000001478880 / 302116154331901976377))\<rparr>
   \<and> (\<exists>d. pole_distance (get_bounds (Fin 50) ! 0) = Fin d
         \<and> foot_distance (- (766614043950492561 / 95567062389492290))
               (- (96232500000000001478880 / 302116154331901976377)) d)"
proof -
  have b: "get_bounds (Fin 50) ! 0 =
       \<lparr>Bounds.a = Fin (- (766614043950492561 / 95567062389492290)),
        Bounds.b = Fin (- (96232500000000001478880 / 302116154331901976377))\<rparr>"
    by (simp add: get_bounds_def get_bounds_loops_def double_arith program_constants Let_def)
  have "get_bounds (Fin 50) ! 0 \<in> set (get_bounds (Fin 50))"
    by (rule nth_mem) (simp add: get_bounds_length)
  with max_safe_chroma_for_l_least [of 50] b show ?thesis by simp
qed

text \<open>
  The claim as it is written fails at the lightness \<open>NaN\<close>: all six distances are \<open>NaN\<close>,
  none is \<open>\<ge> 0\<close>, and the function returns \<open>FLT_MAX\<close>, which is not one of the distances.
\<close>

theorem max_safe_chroma_for_l_not_least:
  "\<not> least_nonneg (pole_distances NaN) (max_safe_chroma_for_l NaN)"
proof -
  have v1: "pole_distances NaN = [NaN, NaN, NaN, NaN, NaN, NaN]"
    by (simp add: pole_distances_def get_bounds_def get_bounds_loops_def pole_distance_def
        intersect_line_line_def dist_from_pole_def double_arith program_constants Let_def)
  show ?thesis unfolding least_nonneg_def v1 by (simp add: zero_double_def)
qed

section \<open>The sign of the distances\<close>

lemma sqrt_d_sign: "\<not> sqrt_d z < 0 \<and> (0 \<le> sqrt_d z \<or> sqrt_d z = NaN)"
  by (cases z) (simp_all add: zero_double_def)

lemma pole_distance_sqrt: "\<exists>z. pole_distance bound = sqrt_d z"
  unfolding pole_distance_def dist_from_pole_def Let_def by (rule exI) (rule refl)

text \<open>
  Claim C6, amended.  No distance computed inside \<open>max_safe_chroma_for_l\<close> is negative:
  \<open>dist_from_pole\<close> returns a square root, so a distance is \<open>\<ge> 0\<close> or \<open>NaN\<close>.  The filter
  \<open>distance \<ge> 0\<close> still discards something, namely the distances that are \<open>NaN\<close>: at
  lightness 0 three of the six are, and the result is 0.
\<close>

theorem pole_distance_never_negative:
  "\<not> pole_distance bound < 0
   \<and> (0 \<le> pole_distance bound \<or> pole_distance bound = NaN)
   \<and> pole_distances 0 = [NaN, 0, NaN, 0, NaN, 0]
   \<and> max_safe_chroma_for_l 0 = 0"
proof (intro conjI)
  obtain z where z: "pole_distance bound = sqrt_d z"
    using pole_distance_sqrt by blast
  show "\<not> pole_distance bound < 0"
    unfolding z using sqrt_d_sign by blast
  show "0 \<le> pole_distance bound \<or> pole_distance bound = NaN"
    unfolding z using sqrt_d_sign by blast
  show d0: "pole_distances 0 = [NaN, 0, NaN, 0, NaN, 0]"
    using pole_distances_zero by (simp add: zero_double_def)
  show "max_safe_chroma_for_l 0 = 0"
    unfolding max_safe_chroma_for_l_select d0 by (simp add: zero_double_def FLT_MAX_def)
qed

text \<open>The claim as it is written asks for a negative distance; there is none.\<close>

theorem no_negative_pole_distance:
  "\<not> (\<exists>l. \<exists>d\<in>set (pole_distances l). d < 0)"
proof
  assume "\<exists>l. \<exists>d\<in>set (pole_distances l). d < 0"
  then obtain l d where "d \<in> set (pole_distances l)" and neg: "d < 0" by blast
  then obtain bound where "d = pole_distance bound"
    by (auto simp add: pole_distances_def)
  with pole_distance_sqrt obtain z where "d = sqrt_d z" by metis
  with neg sqrt_d_sign show False by blast
qed

section \<open>Black and white\<close>

lemmas conversions = hsluv2lch_def hpluv2lch_def lch2luv_def luv2xyz_def xyz2rgb_def
  dot_product_def l2y_def

lemma black_hsluv: "hsluv2rgb h s 0 = \<lparr>Triplet.a = 0, Triplet.b = 0, Triplet.c = 0\<rparr>"
  by (simp add: hsluv2rgb_def conversions from_linear_def double_arith program_constants Let_def)

lemma black_hpluv: "hpluv2rgb h s 0 = \<lparr>Triplet.a = 0, Triplet.b = 0, Triplet.c = 0\<rparr>"
  by (simp add: hpluv2rgb_def conversions from_linear_def double_arith program_constants Let_def)

lemma white_hsluv2lch:
  assumes "\<bar>h\<bar> \<le> 10 ^ 40"
  shows "lch2luv (hsluv2lch \<lparr>Triplet.a = Fin h, Triplet.b = s, Triplet.c = 100\<rparr>) =
     \<lparr>Triplet.a = 100, Triplet.b = 0, Triplet.c = 0\<rparr>"
proof -
  have "hsluv2lch \<lparr>Triplet.a = Fin h, Triplet.b = s, Triplet.c = 100\<rparr> =
      \<lparr>Triplet.a = 100, Triplet.b = 0, Triplet.c = Fin (if s < 0.00000001 then 0 else h)\<rparr>"
    by (simp add: hsluv2lch_def double_arith Let_def)
  moreover have "\<bar>if s < 0.00000001 then 0 else h\<bar> \<le> 10 ^ 40"
    using assms by simp
  ultimately show ?thesis by (simp only: lch2luv_zero_chroma)
qed

lemma white_hpluv2lch:
  assumes "\<bar>h\<bar> \<le> 10 ^ 40"
  shows "lch2luv (hpluv2lch \<lparr>Triplet.a = Fin h, Triplet.b = s, Triplet.c = 100\<rparr>) =
     \<lparr>Triplet.a = 100, Triplet.b = 0, Triplet.c = 0\<rparr>"
proof -
  have "hpluv2lch \<lparr>Triplet.a = Fin h, Triplet.b = s, Triplet.c = 100\<rparr> =
      \<lparr>Triplet.a = 100, Triplet.b = 0, Triplet.c = Fin (if s < 0.00000001 then 0 else h)\<rparr>"
    by (simp add: hpluv2lch_def double_arith Let_def)
  moreover have "\<bar>if s < 0.00000001 then 0 else h\<bar> \<le> 10 ^ 40"
    using assms by simp
  ultimately show ?thesis by (simp only: lch2luv_zero_chroma)
qed

lemma white_xyz2rgb:
  "xyz2rgb (luv2xyz \<lparr>Triplet.a = 100, Triplet.b = 0, Triplet.c = 0\<rparr>) =
     \<lparr>Triplet.a = from_linear
         (Fin (1561066649795970084781997275445347 / 1561066649795970000000000000000000)),
       Triplet.b = from_linear
         (Fin (20814221997279600265466455232334619 / 20814221997279600000000000000000000)),
       Triplet.c = from_linear
         (Fin (62442665991838805342670512950541587 / 62442665991838800000000000000000000))\<rparr>"
  by (simp add: conversions double_arith program_constants Let_def)

lemma from_linear_above_one:
  assumes "1 < x"
  shows "\<exists>w. from_linear (Fin x) = Fin w \<and> 1 < w \<and> w \<le> 1 + 1.055 * (x - 1)"
proof -
  define p where "p = x powr (1.0 / 2.4)"
  have e: "from_linear (Fin x) = Fin (1.055 * p - 0.055)"
    using assms unfolding p_def by (simp add: from_linear_def double_arith)
  have 1: "1 < p"
    using assms unfolding p_def by simp
  have "x powr (1.0 / 2.4) \<le> x powr 1"
    using assms by (intro powr_mono) simp_all
  then have 2: "p \<le> x"
    using assms unfolding p_def by simp
  from 1 have "1 < 1.055 * p - 0.055" by (simp add: field_simps)
  moreover from 2 have "1.055 * p - 0.055 \<le> 1 + 1.055 * (x - 1)" by (simp add: field_simps)
  ultimately show ?thesis using e by blast
qed

lemma white_channel:
  assumes "1 < x" and "x \<le> 1 + 1 / 10 ^ 16"
  shows "\<exists>w. from_linear (Fin x) = Fin w \<and> w \<noteq> 1 \<and> \<bar>w - 1\<bar> \<le> 1 / 10 ^ 15"
proof -
  from from_linear_above_one [OF assms(1)] obtain w
    where w: "from_linear (Fin x) = Fin w" "1 < w" "w \<le> 1 + 1.055 * (x - 1)"
    by blast
  from w(3) assms(2) have "w - 1 \<le> 1 / 10 ^ 15" by (simp add: field_simps)
  with w(1) w(2) show ?thesis by (intro exI [of _ w]) simp
qed

lemma white_rgb:
  "\<exists>r g bl. xyz2rgb (luv2xyz \<lparr>Triplet.a = 100, Triplet.b = 0, Triplet.c = 0\<rparr>) =
       \<lparr>Triplet.a = Fin r, Triplet.b = Fin g, Triplet.c = Fin bl\<rparr>
     \<and> r \<noteq> 1 \<and> g \<noteq> 1 \<and> bl \<noteq> 1
     \<and> \<bar>r - 1\<bar> \<le> 1 / 10 ^ 15 \<and> \<bar>g - 1\<bar> \<le> 1 / 10 ^ 15 \<and> \<bar>bl - 1\<bar> \<le> 1 / 10 ^ 15"
proof -
  obtain r where r: "from_linear
         (Fin (1561066649795970084781997275445347 / 1561066649795970000000000000000000)) = Fin r"
      "r \<noteq> 1" "\<bar>r - 1\<bar> \<le> 1 / 10 ^ 15"
    using white_channel
      [of "1561066649795970084781997275445347 / 1561066649795970000000000000000000"]
    by auto
  obtain g where g: "from_linear
         (Fin (20814221997279600265466455232334619 / 20814221997279600000000000000000000)) = Fin g"
      "g \<noteq> 1" "\<bar>g - 1\<bar> \<le> 1 / 10 ^ 15"
    using white_channel
      [of "20814221997279600265466455232334619 / 20814221997279600000000000000000000"]
    by auto
  obtain bl where bl: "from_linear
         (Fin (62442665991838805342670512950541587 / 62442665991838800000000000000000000)) = Fin bl"
      "bl \<noteq> 1" "\<bar>bl - 1\<bar> \<le> 1 / 10 ^ 15"
    using white_channel
      [of "62442665991838805342670512950541587 / 62442665991838800000000000000000000"]
    by auto
  show ?thesis unfolding white_xyz2rgb r(1) g(1) bl(1)
    using r(2,3) g(2,3) bl(2,3) by blast
qed

lemma white_beyond_float:
  "hsluv2rgb (Fin (10 ^ 41)) 50 100 = \<lparr>Triplet.a = NaN, Triplet.b = NaN, Triplet.c = NaN\<rparr>"
  by (simp add: hsluv2rgb_def conversions from_linear_def cosf_def sinf_def to_float_def
      double_arith program_constants Let_def)

text \<open>
  Claim C3, amended.  For every \<open>h\<close> and \<open>s\<close>, \<open>hsluv2rgb\<close> and \<open>hpluv2rgb\<close> return
  exactly \<open>(0, 0, 0)\<close> at lightness 0.  At lightness 100 they return, for every \<open>s\<close> and
  every \<open>h\<close> of magnitude up to \<open>1e40\<close> (so that the angle in radians is in the range of
  \<open>float\<close>), one and the same triple, whose channels are within \<open>1e-15\<close> of 1.
\<close>

theorem black_and_white:
  "hsluv2rgb h s 0 = \<lparr>Triplet.a = 0, Triplet.b = 0, Triplet.c = 0\<rparr>
   \<and> hpluv2rgb h s 0 = \<lparr>Triplet.a = 0, Triplet.b = 0, Triplet.c = 0\<rparr>
   \<and> (\<exists>r g bl.
         (\<forall>h' s'. \<bar>h'\<bar> \<le> 10 ^ 40 \<longrightarrow>
             hsluv2rgb (Fin h') s' 100 =
               \<lparr>Triplet.a = Fin r, Triplet.b = Fin g, Triplet.c = Fin bl\<rparr>
           \<and> hpluv2rgb (Fin h') s' 100 =
               \<lparr>Triplet.a = Fin r, Triplet.b = Fin g, Triplet.c = Fin bl\<rparr>)
       \<and> \<bar>r - 1\<bar> \<le> 1 / 10 ^ 15 \<and> \<bar>g - 1\<bar> \<le> 1 / 10 ^ 15 \<and> \<bar>bl - 1\<bar> \<le> 1 / 10 ^ 15)"
proof (intro conjI)
  show "hsluv2rgb h s 0 = \<lparr>Triplet.a = 0, Triplet.b = 0, Triplet.c = 0\<rparr>"
    by (rule black_hsluv)
  show "hpluv2rgb h s 0 = \<lparr>Triplet.a = 0, Triplet.b = 0, Triplet.c = 0\<rparr>"
    by (rule black_hpluv)
  from white_rgb obtain r g bl
    where w: "xyz2rgb (luv2xyz \<lparr>Triplet.a = 100, Triplet.b = 0, Triplet.c = 0\<rparr>) =
         \<lparr>Triplet.a = Fin r, Triplet.b = Fin g, Triplet.c = Fin bl\<rparr>"
      and n: "\<bar>r - 1\<bar> \<le> 1 / 10 ^ 15" "\<bar>g - 1\<bar> \<le> 1 / 10 ^ 15" "\<bar>bl - 1\<bar> \<le> 1 / 10 ^ 15"
    by blast
  have "\<forall>h' s'. \<bar>h'\<bar> \<le> 10 ^ 40 \<longrightarrow>
             hsluv2rgb (Fin h') s' 100 =
               \<lparr>Triplet.a = Fin r, Triplet.b = Fin g, Triplet.c = Fin bl\<rparr>
           \<and> hpluv2rgb (Fin h') s' 100 =
               \<lparr>Triplet.a = Fin r, Triplet.b = Fin g, Triplet.c = Fin bl\<rparr>"
    unfolding hsluv2rgb_def hpluv2rgb_def
    by (simp add: white_hsluv2lch white_hpluv2lch w)
  with n show "\<exists>r g bl.
         (\<forall>h' s'. \<bar>h'\<bar> \<le> 10 ^ 40 \<longrightarrow>
             hsluv2rgb (Fin h') s' 100 =
               \<lparr>Triplet.a = Fin r, Triplet.b = Fin g, Triplet.c = Fin bl\<rparr>
           \<and> hpluv2rgb (Fin h') s' 100 =
               \<lparr>Triplet.a = Fin r, Triplet.b = Fin g, Triplet.c = Fin bl\<rparr>)
       \<and> \<bar>r - 1\<bar> \<le> 1 / 10 ^ 15 \<and> \<bar>g - 1\<bar> \<le> 1 / 10 ^ 15 \<and> \<bar>bl - 1\<bar> \<le> 1 / 10 ^ 15"
    by blast
qed

text \<open>At hue 120 and saturation 50, and at hue 0 and saturation 0.\<close>

theorem black_and_white_witness:
  "\<exists>r g bl.
      hsluv2rgb (Fin 120) 50 100 = \<lparr>Triplet.a = Fin r, Triplet.b = Fin g, Triplet.c = Fin bl\<rparr>
    \<and> hpluv2rgb (Fin 120) 50 100 = \<lparr>Triplet.a = Fin r, Triplet.b = Fin g, Triplet.c = Fin bl\<rparr>
    \<and> hsluv2rgb (Fin 0) 0 100 = \<lparr>Triplet.a = Fin r, Triplet.b = Fin g, Triplet.c = Fin bl\<rparr>
    \<and> \<bar>r - 1\<bar> \<le> 1 / 10 ^ 15 \<and> \<bar>g - 1\<bar> \<le> 1 / 10 ^ 15 \<and> \<bar>bl - 1\<bar> \<le> 1 / 10 ^ 15"
proof -
  from black_and_white [of 0 0] obtain r g bl
    where w: "\<forall>h' s'. \<bar>h'\<bar> \<le> 10 ^ 40 \<longrightarrow>
             hsluv2rgb (Fin h') s' 100 =
               \<lparr>Triplet.a = Fin r, Triplet.b = Fin g, Triplet.c = Fin bl\<rparr>
           \<and> hpluv2rgb (Fin h') s' 100 =
               \<lparr>Triplet.a = Fin r, Triplet.b = Fin g, Triplet.c = Fin bl\<rparr>"
      and n: "\<bar>r - 1\<bar> \<le> 1 / 10 ^ 15" "\<bar>g - 1\<bar> \<le> 1 / 10 ^ 15" "\<bar>bl - 1\<bar> \<le> 1 / 10 ^ 15"
    by blast
  have "\<bar>120 :: real\<bar> \<le> 10 ^ 40" "\<bar>0 :: real\<bar> \<le> 10 ^ 40" by simp_all
  with w n show ?thesis by blast
qed

text \<open>
  The claim as it is written fails at \<open>h = 0\<close>, \<open>s = 0\<close>, \<open>l = 100\<close>, where the result is
  not \<open>(1, 1, 1)\<close>, and at \<open>h = 1e41\<close>, \<open>s = 50\<close>, \<open>l = 100\<close>, where the angle is beyond the
  range of \<open>float\<close> and the result is \<open>(NaN, NaN, NaN)\<close>.
\<close>

theorem white_not_exact:
  "hsluv2rgb 0 0 100 \<noteq> \<lparr>Triplet.a = 1, Triplet.b = 1, Triplet.c = 1\<rparr>
   \<and> hsluv2rgb (Fin (10 ^ 41)) 50 100 \<noteq> \<lparr>Triplet.a = 1, Triplet.b = 1, Triplet.c = 1\<rparr>"
proof
  from white_rgb obtain r g bl
    where w: "xyz2rgb (luv2xyz \<lparr>Triplet.a = 100, Triplet.b = 0, Triplet.c = 0\<rparr>) =
         \<lparr>Triplet.a = Fin r, Triplet.b = Fin g, Triplet.c = Fin bl\<rparr>"
      and n: "r \<noteq> 1"
    by blast
  have "lch2luv (hsluv2lch \<lparr>Triplet.a = Fin 0, Triplet.b = 0, Triplet.c = 100\<rparr>) =
     \<lparr>Triplet.a = 100, Triplet.b = 0, Triplet.c = 0\<rparr>"
    by (rule white_hsluv2lch) simp
  then have "hsluv2rgb (Fin 0) 0 100 =
      \<lparr>Triplet.a = Fin r, Triplet.b = Fin g, Triplet.c = Fin bl\<rparr>"
    unfolding hsluv2rgb_def by (simp add: w)
  with n show "hsluv2rgb 0 0 100 \<noteq> \<lparr>Triplet.a = 1, Triplet.b = 1, Triplet.c = 1\<rparr>"
    by (simp add: zero_double_def one_double_def)
  show "hsluv2rgb (Fin (10 ^ 41)) 50 100 \<noteq> \<lparr>Triplet.a = 1, Triplet.b = 1, Triplet.c = 1\<rparr>"
    unfolding white_beyond_float by (simp add: one_double_def)
qed

section \<open>The threshold checks of the LUV converters\<close>

lemma luv2xyz_traced_result: "fst (luv2xyz_traced t) = luv2xyz t"
  by (simp add: luv2xyz_traced_def luv2xyz_def Let_def)

lemma xyz2luv_traced_result: "fst (xyz2luv_traced t) = xyz2luv t"
  by (simp add: xyz2luv_traced_def xyz2luv_def Let_def)

text \<open>
  Claim C9, amended.  \<open>luv2xyz\<close> returns \<open>(0, 0, 0)\<close> when its input lightness is
  \<open>\<le> 1e-8\<close>, and then performs no division; when it divides, the divisor of its first
  two divisions is \<open>13 * L\<close> with an \<open>L\<close> that is not \<open>\<le> 1e-8\<close>.  \<open>xyz2luv\<close> sets \<open>u\<close> and \<open>v\<close>
  to 0 when the lightness it computes is \<open>< 1e-8\<close>, but its two divisions, by
  \<open>X + 15 Y + 3 Z\<close>, are performed on every input, before that check.
\<close>

theorem threshold_guards:
  "fst (luv2xyz_traced t) = luv2xyz t \<and> fst (xyz2luv_traced t) = xyz2luv t
   \<and> (Triplet.a t \<le> 0.00000001 \<longrightarrow>
        luv2xyz t = \<lparr>Triplet.a = 0, Triplet.b = 0, Triplet.c = 0\<rparr>
        \<and> snd (luv2xyz_traced t) = [])
   \<and> (\<not> Triplet.a t \<le> 0.00000001 \<longrightarrow>
        take 2 (snd (luv2xyz_traced t)) = [13 * Triplet.a t, 13 * Triplet.a t])
   \<and> (y2l (Triplet.b t) < 0.00000001 \<longrightarrow>
        xyz2luv t = \<lparr>Triplet.a = y2l (Triplet.b t), Triplet.b = 0, Triplet.c = 0\<rparr>)
   \<and> snd (xyz2luv_traced t) =
        [Triplet.a t + 15 * Triplet.b t + 3 * Triplet.c t,
         Triplet.a t + 15 * Triplet.b t + 3 * Triplet.c t]"
proof (intro conjI impI)
  show "fst (luv2xyz_traced t) = luv2xyz t"
    by (rule luv2xyz_traced_result)
  show "fst (xyz2luv_traced t) = xyz2luv t"
    by (rule xyz2luv_traced_result)
next
  assume "Triplet.a t \<le> 0.00000001"
  then show "luv2xyz t = \<lparr>Triplet.a = 0, Triplet.b = 0, Triplet.c = 0\<rparr>"
    and "snd (luv2xyz_traced t) = []"
    by (simp_all add: luv2xyz_def luv2xyz_traced_def double_arith)
next
  assume "\<not> Triplet.a t \<le> 0.00000001"
  then show "take 2 (snd (luv2xyz_traced t)) = [13 * Triplet.a t, 13 * Triplet.a t]"
    by (simp add: luv2xyz_traced_def Let_def double_arith)
next
  assume "y2l (Triplet.b t) < 0.00000001"
  then show "xyz2luv t = \<lparr>Triplet.a = y2l (Triplet.b t), Triplet.b = 0, Triplet.c = 0\<rparr>"
    by (simp add: xyz2luv_def Let_def double_arith)
next
  show "snd (xyz2luv_traced t) =
        [Triplet.a t + 15 * Triplet.b t + 3 * Triplet.c t,
         Triplet.a t + 15 * Triplet.b t + 3 * Triplet.c t]"
    by (simp add: xyz2luv_traced_def Let_def double_arith)
qed

theorem threshold_guards_witness:
  "luv2xyz \<lparr>Triplet.a = 0, Triplet.b = 1, Triplet.c = 1\<rparr>
     = \<lparr>Triplet.a = 0, Triplet.b = 0, Triplet.c = 0\<rparr>
   \<and> snd (luv2xyz_traced \<lparr>Triplet.a = 0, Triplet.b = 1, Triplet.c = 1\<rparr>) = []
   \<and> take 2 (snd (luv2xyz_traced \<lparr>Triplet.a = 50, Triplet.b = 1, Triplet.c = 1\<rparr>))
       = [650, 650]
   \<and> xyz2luv \<lparr>Triplet.a = 0, Triplet.b = 0, Triplet.c = 0\<rparr>
     = \<lparr>Triplet.a = 0, Triplet.b = 0, Triplet.c = 0\<rparr>"
proof -
  have 1: "Triplet.a \<lparr>Triplet.a = 0, Triplet.b = 1, Triplet.c = 1\<rparr> \<le> 0.00000001"
    by (simp add: double_arith)
  have 2: "\<not> Triplet.a \<lparr>Triplet.a = 50, Triplet.b = 1, Triplet.c = 1\<rparr> \<le> 0.00000001"
    by (simp add: double_arith)
  have 3: "y2l (Triplet.b \<lparr>Triplet.a = 0, Triplet.b = 0, Triplet.c = 0\<rparr>) = 0"
    by (simp add: y2l_def double_arith program_constants)
  then have 4: "y2l (Triplet.b \<lparr>Triplet.a = 0, Triplet.b = 0, Triplet.c = 0\<rparr>) < 0.00000001"
    by (simp add: double_arith)
  from threshold_guards [of "\<lparr>Triplet.a = 0, Triplet.b = 1, Triplet.c = 1\<rparr>"] 1
    threshold_guards [of "\<lparr>Triplet.a = 50, Triplet.b = 1, Triplet.c = 1\<rparr>"] 2
    threshold_guards [of "\<lparr>Triplet.a = 0, Triplet.b = 0, Triplet.c = 0\<rparr>"] 3 4
  show ?thesis by (simp add: double_arith)
qed

text \<open>
  The claim as it is written fails at black, \<open>X = Y = Z = 0\<close>: the lightness computed
  is 0, below the threshold, and \<open>xyz2luv\<close> has performed two divisions by 0.
\<close>

theorem xyz2luv_divides_at_black:
  "y2l (Triplet.b \<lparr>Triplet.a = 0, Triplet.b = 0, Triplet.c = 0\<rparr>) < 0.00000001
   \<and> snd (xyz2luv_traced \<lparr>Triplet.a = 0, Triplet.b = 0, Triplet.c = 0\<rparr>) = [0, 0]"
  by (simp add: xyz2luv_traced_def y2l_def Let_def double_arith program_constants)

section \<open>Saturation and chroma in HSLuv\<close>

text \<open>
  The loop of \<open>max_chroma_for_lh\<close> with rounding is the same running minimum, so its
  result is a number between 0 and \<open>FLT_MAX\<close> whatever the six values are.
\<close>

lemma max_chroma_loop_ieee_select:
  "max_chroma_loop_ieee hrad bounds min_len =
     select_min (map (ray_length_until_intersect_ieee hrad) bounds) min_len"
  by (induction bounds arbitrary: min_len) (simp_all add: Let_def)

lemma max_chroma_for_lh_ieee_select:
  "max_chroma_for_lh_ieee l h = select_min (ray_lengths_ieee l h) FLT_MAX"
  by (simp add: max_chroma_for_lh_ieee_def ray_lengths_ieee_def max_chroma_loop_ieee_select
      Let_def)

lemma max_chroma_for_lh_ieee_range:
  "\<exists>M. max_chroma_for_lh_ieee l h = Fin M \<and> 0 \<le> M
     \<and> M \<le> 340282346638528859811704183484516925440"
proof -
  from select_min_char [of "ray_lengths_ieee l h" 340282346638528859811704183484516925440]
  obtain r where r1: "select_min (ray_lengths_ieee l h)
        (Fin 340282346638528859811704183484516925440) = Fin r"
    and r2: "r \<le> 340282346638528859811704183484516925440"
    and r3: "r = 340282346638528859811704183484516925440
       \<or> (Fin r \<in> set (ray_lengths_ieee l h) \<and> 0 \<le> r)"
    by (elim exE conjE)
  from r3 have "0 \<le> r" by auto
  with r1 r2 show ?thesis
    unfolding max_chroma_for_lh_ieee_select FLT_MAX_def by blast
qed

text \<open>
  Lightness 10, hue 0 and saturation 100, operation by operation.  Each step names the
  exponent and the integer number of quanta of the rounded result.  The hue 0 gives
  the angle 0, whose sine and cosine are 0 and 1, and \<open>pow\<close> is called on \<open>26\<close> and
  \<open>3\<close>, so every value of \<open>math.h\<close> involved is exact.
\<close>

lemma m_ieee_value:
  "m_ieee =
    [\<lparr>Triplet.a = Fin (3649007755670045 / 1125899906842624), Triplet.b = Fin (- (3461879152815171 / 2251799813685248)), Triplet.c = Fin (- (8982172937033957 / 18014398509481984))\<rparr>,
     \<lparr>Triplet.a = Fin (- (4365085279185795 / 4503599627370496)), Triplet.b = Fin (8448606540749331 / 4503599627370496), Triplet.c = Fin (5988714913738101 / 144115188075855872)\<rparr>,
     \<lparr>Triplet.a = Fin (8017139398207085 / 144115188075855872), Triplet.b = Fin (- (7349044448356495 / 36028797018963968)), Triplet.c = Fin (4760176517685457 / 4503599627370496)\<rparr>]"
proof -
  have s1: "rd (Fin (16204849709522607 / 5000000000000000)) = Fin (3649007755670045 / 1125899906842624)"
    using to_double_eval [of "1" "16204849709522607 / 5000000000000000" "7298015511340090"] by (simp add: rd_def pow2_def)
  have s2: "rd (Fin (- (3074766355140187 / 2000000000000000))) = Fin (- (3461879152815171 / 2251799813685248))"
    using to_double_eval [of "0" "- (3074766355140187 / 2000000000000000)" "- 6923758305630342"] by (simp add: rd_def pow2_def)
  have s3: "rd (Fin (- (6232634503662541 / 12500000000000000))) = Fin (- (8982172937033957 / 18014398509481984))"
    using to_double_eval [of "- 2" "- (6232634503662541 / 12500000000000000)" "- 8982172937033957"] by (simp add: rd_def pow2_def)
  have s4: "rd (Fin (- (96924363628087983 / 100000000000000000))) = Fin (- (4365085279185795 / 4503599627370496))"
    using to_double_eval [of "- 1" "- (96924363628087983 / 100000000000000000)" "- 8730170558371590"] by (simp add: rd_def pow2_def)
  have s5: "rd (Fin (18759675015077207 / 10000000000000000)) = Fin (8448606540749331 / 4503599627370496)"
    using to_double_eval [of "0" "18759675015077207 / 10000000000000000" "8448606540749331"] by (simp add: rd_def pow2_def)
  have s6: "rd (Fin (41555057407175613 / 1000000000000000000)) = Fin (5988714913738101 / 144115188075855872)"
    using to_double_eval [of "- 5" "41555057407175613 / 1000000000000000000" "5988714913738101"] by (simp add: rd_def pow2_def)
  have s7: "rd (Fin (55630079696993609 / 1000000000000000000)) = Fin (8017139398207085 / 144115188075855872)"
    using to_double_eval [of "- 5" "55630079696993609 / 1000000000000000000" "8017139398207085"] by (simp add: rd_def pow2_def)
  have s8: "rd (Fin (- (20397695888897657 / 100000000000000000))) = Fin (- (7349044448356495 / 36028797018963968))"
    using to_double_eval [of "- 3" "- (20397695888897657 / 100000000000000000)" "- 7349044448356495"] by (simp add: rd_def pow2_def)
  have s9: "rd (Fin (5284857571214393 / 5000000000000000)) = Fin (4760176517685457 / 4503599627370496)"
    using to_double_eval [of "0" "5284857571214393 / 5000000000000000" "4760176517685457"] by (simp add: rd_def pow2_def)
  show ?thesis
    by (simp add: m_ieee_def m_def double_arith s1 s2 s3 s4 s5 s6 s7 s8 s9)
qed

lemma get_bounds_ieee_10:
  "get_bounds_ieee (Fin 10) =
    [\<lparr>Bounds.a = Fin (- (4515837669836177 / 562949953421312)), Bounds.b = Fin (- (8965770385965735 / 140737488355328))\<rparr>,
     \<lparr>Bounds.a = Fin (6287838709039039 / 72057594037927936), Bounds.b = Fin (- (4281999954810051 / 70368744177664))\<rparr>,
     \<lparr>Bounds.a = Fin (5971615439479035 / 4503599627370496), Bounds.b = Fin (- (1284073157775657 / 35184372088832))\<rparr>,
     \<lparr>Bounds.a = Fin (- (3658216747870821 / 144115188075855872)), Bounds.b = Fin (- (4317012704601599 / 70368744177664))\<rparr>,
     \<lparr>Bounds.a = Fin (- (4381880718522645 / 36028797018963968)), Bounds.b = Fin (1561046034720441 / 140737488355328)\<rparr>,
     \<lparr>Bounds.a = Fin (- (8161910470084493 / 1152921504606846976)), Bounds.b = Fin (- (997339364705643 / 17592186044416))\<rparr>]"
proof -
  have s1: "add64 (Fin 10) (Fin 16) = Fin 26"
    using to_double_eval [of "4" "26" "7318349394477056"] by (simp add: add64_def rd_def pow2_def)
  have s2: "pow64 (Fin 26) 3 = Fin 17576"
    using to_double_eval [of "14" "17576" "4831254092447744"] by (simp add: pow64_def rd_def is_int_def pow2_def)
  have s3: "div64 (Fin 17576) (Fin 1560896) = Fin (6491062942364495 / 576460752303423488)"
    using to_double_eval [of "- 7" "2197 / 195112" "6491062942364495"] by (simp add: div64_def rd_def pow2_def)
  have s4: "rd (Fin (22141129197589077 / 2500000000000000000)) = Fin (2552698398817899 / 288230376151711744)"
    using to_double_eval [of "- 7" "22141129197589077 / 2500000000000000000" "5105396797635798"] by (simp add: rd_def pow2_def)
  have s5: "mul64 (Fin 284517) (Fin (3649007755670045 / 1125899906842624)) = Fin (7920873562774461 / 8589934592)"
    using to_double_eval [of "19" "1038204739619974193265 / 1125899906842624" "7920873562774461"] by (simp add: mul64_def rd_def pow2_def)
  have s6: "mul64 (Fin 94839) (Fin (- (8982172937033957 / 18014398509481984))) = Fin (- (6499178307917507 / 137438953472))"
    using to_double_eval [of "15" "- (851860299175363447923 / 18014398509481984)" "- 6499178307917507"] by (simp add: mul64_def rd_def pow2_def)
  have s7: "sub64 (Fin (7920873562774461 / 8589934592)) (Fin (- (6499178307917507 / 137438953472))) = Fin (8327072207019305 / 8589934592)"
    using to_double_eval [of "19" "133233155312308883 / 137438953472" "8327072207019305"] by (simp add: sub64_def rd_def minus_double_def pow2_def)
  have s8: "mul64 (Fin (8327072207019305 / 8589934592)) (Fin (6491062942364495 / 576460752303423488)) = Fin (3000463756418289 / 274877906944)"
    using to_double_eval [of "13" "54051549821376339148192811575975 / 4951760157141521099596496896" "6000927512836578"] by (simp add: mul64_def rd_def pow2_def)
  have s9: "mul64 (Fin 838422) (Fin (- (8982172937033957 / 18014398509481984))) = Fin (- (3590989779574339 / 8589934592))"
    using to_double_eval [of "18" "- (3765425699106942147927 / 9007199254740992)" "- 7181979559148678"] by (simp add: mul64_def rd_def pow2_def)
  have s10: "mul64 (Fin 769860) (Fin (- (3461879152815171 / 2251799813685248))) = Fin (- (5083393639729095 / 4294967296))"
    using to_double_eval [of "20" "- (666290571146571886515 / 562949953421312)" "- 5083393639729095"] by (simp add: mul64_def rd_def pow2_def)
  have s11: "add64 (Fin (- (3590989779574339 / 8589934592))) (Fin (- (5083393639729095 / 4294967296))) = Fin (- (859861066189533 / 536870912))"
    using to_double_eval [of "20" "- (13757777059032529 / 8589934592)" "- 6878888529516264"] by (simp add: add64_def rd_def pow2_def)
  have s12: "mul64 (Fin 731718) (Fin (3649007755670045 / 1125899906842624)) = Fin (1273176506501853 / 536870912)"
    using to_double_eval [of "21" "1335022328481686993655 / 562949953421312" "5092706026007412"] by (simp add: mul64_def rd_def pow2_def)
  have s13: "add64 (Fin (- (859861066189533 / 536870912))) (Fin (1273176506501853 / 536870912)) = Fin 769860"
    using to_double_eval [of "19" "769860" "6613047044997120"] by (simp add: add64_def rd_def pow2_def)
  have s14: "mul64 (Fin 769860) (Fin 10) = Fin 7698600"
    using to_double_eval [of "22" "7698600" "8266308806246400"] by (simp add: mul64_def rd_def pow2_def)
  have s15: "mul64 (Fin 7698600) (Fin (6491062942364495 / 576460752303423488)) = Fin (5957138200770295 / 68719476736)"
    using to_double_eval [of "16" "6246512146010912650875 / 72057594037927936" "5957138200770295"] by (simp add: mul64_def rd_def pow2_def)
  have s16: "mul64 (Fin 769860) (Fin 0) = Fin 0"
    by (simp add: mul64_def rd_def to_double_zero)
  have s17: "mul64 (Fin 0) (Fin 10) = Fin 0"
    by (simp add: mul64_def rd_def to_double_zero)
  have s18: "sub64 (Fin (5957138200770295 / 68719476736)) (Fin 0) = Fin (5957138200770295 / 68719476736)"
    using to_double_eval [of "16" "5957138200770295 / 68719476736" "5957138200770295"] by (simp add: sub64_def rd_def minus_double_def pow2_def)
  have s19: "mul64 (Fin 632260) (Fin (- (8982172937033957 / 18014398509481984))) = Fin (- (5415981923264589 / 17179869184))"
    using to_double_eval [of "18" "- (1419767165292272413205 / 4503599627370496)" "- 5415981923264589"] by (simp add: mul64_def rd_def pow2_def)
  have s20: "mul64 (Fin 126452) (Fin (- (3461879152815171 / 2251799813685248))) = Fin (- (6679711038692993 / 34359738368))"
    using to_double_eval [of "17" "- (109440385657946000823 / 562949953421312)" "- 6679711038692993"] by (simp add: mul64_def rd_def pow2_def)
  have s21: "sub64 (Fin (- (5415981923264589 / 17179869184))) (Fin (- (6679711038692993 / 34359738368))) = Fin (- (4152252807836185 / 34359738368))"
    using to_double_eval [of "16" "- (4152252807836185 / 34359738368)" "- 8304505615672370"] by (simp add: sub64_def rd_def minus_double_def pow2_def)
  have s22: "mul64 (Fin (- (4152252807836185 / 34359738368))) (Fin (6491062942364495 / 576460752303423488)) = Fin (- (5984664836650029 / 4398046511104))"
    using to_double_eval [of "10" "- (26952534328274383047348520251575 / 19807040628566084398385987584)" "- 5984664836650029"] by (simp add: mul64_def rd_def pow2_def)
  have s23: "mul64 (Fin 126452) (Fin 0) = Fin 0"
    by (simp add: mul64_def rd_def to_double_zero)
  have s24: "add64 (Fin (- (5984664836650029 / 4398046511104))) (Fin 0) = Fin (- (5984664836650029 / 4398046511104))"
    using to_double_eval [of "10" "- (5984664836650029 / 4398046511104)" "- 5984664836650029"] by (simp add: add64_def rd_def pow2_def)
  have s25: "div64 (Fin (3000463756418289 / 274877906944)) (Fin (- (5984664836650029 / 4398046511104))) = Fin (- (4515837669836177 / 562949953421312))"
    using to_double_eval [of "3" "- (16002473367564208 / 1994888278883343)" "- 4515837669836177"] by (simp add: div64_def rd_def pow2_def)
  have s26: "div64 (Fin (5957138200770295 / 68719476736)) (Fin (- (5984664836650029 / 4398046511104))) = Fin (- (8965770385965735 / 140737488355328))"
    using to_double_eval [of "5" "- (381256844849298880 / 5984664836650029)" "- 8965770385965735"] by (simp add: div64_def rd_def pow2_def)
  have s27: "mul64 (Fin 769860) (Fin 1) = Fin 769860"
    using to_double_eval [of "19" "769860" "6613047044997120"] by (simp add: mul64_def rd_def pow2_def)
  have s28: "sub64 (Fin (5957138200770295 / 68719476736)) (Fin 7698600) = Fin (- (2043307130464841 / 268435456))"
    using to_double_eval [of "22" "- (523086625398999305 / 68719476736)" "- 8173228521859364"] by (simp add: sub64_def rd_def minus_double_def pow2_def)
  have s29: "mul64 (Fin 126452) (Fin 1) = Fin 126452"
    using to_double_eval [of "16" "126452" "8689715272220672"] by (simp add: mul64_def rd_def pow2_def)
  have s30: "add64 (Fin (- (5984664836650029 / 4398046511104))) (Fin 126452) = Fin (8596204884148015 / 68719476736)"
    using to_double_eval [of "16" "550157112585472979 / 4398046511104" "8596204884148015"] by (simp add: add64_def rd_def pow2_def)
  have s31: "div64 (Fin (3000463756418289 / 274877906944)) (Fin (8596204884148015 / 68719476736)) = Fin (6287838709039039 / 72057594037927936)"
    using to_double_eval [of "- 4" "3000463756418289 / 34384819536592060" "6287838709039039"] by (simp add: div64_def rd_def pow2_def)
  have s32: "div64 (Fin (- (2043307130464841 / 268435456))) (Fin (8596204884148015 / 68719476736)) = Fin (- (4281999954810051 / 70368744177664))"
    using to_double_eval [of "5" "- (523086625398999296 / 8596204884148015)" "- 8563999909620102"] by (simp add: div64_def rd_def pow2_def)
  have s33: "mul64 (Fin 284517) (Fin (- (4365085279185795 / 4503599627370496))) = Fin (- (4737628816139621 / 17179869184))"
    using to_double_eval [of "18" "- (1241940968378104836015 / 4503599627370496)" "- 4737628816139621"] by (simp add: mul64_def rd_def pow2_def)
  have s34: "mul64 (Fin 94839) (Fin (5988714913738101 / 144115188075855872)) = Fin (541652425483711 / 137438953472)"
    using to_double_eval [of "11" "567963733704007760739 / 144115188075855872" "8666438807739376"] by (simp add: mul64_def rd_def pow2_def)
  have s35: "sub64 (Fin (- (4737628816139621 / 17179869184))) (Fin (541652425483711 / 137438953472)) = Fin (- (4805335369325085 / 17179869184))"
    using to_double_eval [of "18" "- (38442682954600679 / 137438953472)" "- 4805335369325085"] by (simp add: sub64_def rd_def minus_double_def pow2_def)
  have s36: "mul64 (Fin (- (4805335369325085 / 17179869184))) (Fin (6491062942364495 / 576460752303423488)) = Fin (- (3462978164387949 / 1099511627776))"
    using to_double_eval [of "11" "- (31191734341459463509942216857075 / 9903520314283042199192993792)" "- 6925956328775898"] by (simp add: mul64_def rd_def pow2_def)
  have s37: "mul64 (Fin 838422) (Fin (5988714913738101 / 144115188075855872)) = Fin (2394232909873069 / 68719476736)"
    using to_double_eval [of "15" "2510535167703063058311 / 72057594037927936" "4788465819746138"] by (simp add: mul64_def rd_def pow2_def)
  have s38: "mul64 (Fin 769860) (Fin (8448606540749331 / 4503599627370496)) = Fin (6202930671178131 / 4294967296)"
    using to_double_eval [of "20" "1626061057865319990915 / 1125899906842624" "6202930671178131"] by (simp add: mul64_def rd_def pow2_def)
  have s39: "add64 (Fin (2394232909873069 / 68719476736)) (Fin (6202930671178131 / 4294967296)) = Fin (3176285114022599 / 2147483648)"
    using to_double_eval [of "20" "101641123648723165 / 68719476736" "6352570228045198"] by (simp add: add64_def rd_def pow2_def)
  have s40: "mul64 (Fin 731718) (Fin (- (4365085279185795 / 4503599627370496))) = Fin (- (1523023352773319 / 2147483648))"
    using to_double_eval [of "19" "- (1597005735157635772905 / 2251799813685248)" "- 6092093411093276"] by (simp add: mul64_def rd_def pow2_def)
  have s41: "add64 (Fin (3176285114022599 / 2147483648)) (Fin (- (1523023352773319 / 2147483648))) = Fin 769860"
    using to_double_eval [of "19" "769860" "6613047044997120"] by (simp add: add64_def rd_def pow2_def)
  have s42: "mul64 (Fin 632260) (Fin (5988714913738101 / 144115188075855872)) = Fin (3611016169891407 / 137438953472)"
    using to_double_eval [of "14" "946606222840012934565 / 36028797018963968" "7222032339782814"] by (simp add: mul64_def rd_def pow2_def)
  have s43: "mul64 (Fin 126452) (Fin (8448606540749331 / 4503599627370496)) = Fin (1018851465502581 / 4294967296)"
    using to_double_eval [of "17" "267085798572708600903 / 1125899906842624" "8150811724020648"] by (simp add: mul64_def rd_def pow2_def)
  have s44: "sub64 (Fin (3611016169891407 / 137438953472)) (Fin (1018851465502581 / 4294967296)) = Fin (- (1812014420386949 / 8589934592))"
    using to_double_eval [of "17" "- (28992230726191185 / 137438953472)" "- 7248057681547796"] by (simp add: sub64_def rd_def minus_double_def pow2_def)
  have s45: "mul64 (Fin (- (1812014420386949 / 8589934592))) (Fin (6491062942364495 / 576460752303423488)) = Fin (- (5223332724215181 / 2199023255552))"
    using to_double_eval [of "11" "- (11761899655203804150502898975755 / 4951760157141521099596496896)" "- 5223332724215181"] by (simp add: mul64_def rd_def pow2_def)
  have s46: "add64 (Fin (- (5223332724215181 / 2199023255552))) (Fin 0) = Fin (- (5223332724215181 / 2199023255552))"
    using to_double_eval [of "11" "- (5223332724215181 / 2199023255552)" "- 5223332724215181"] by (simp add: add64_def rd_def pow2_def)
  have s47: "div64 (Fin (- (3462978164387949 / 1099511627776))) (Fin (- (5223332724215181 / 2199023255552))) = Fin (5971615439479035 / 4503599627370496)"
    using to_double_eval [of "0" "2308652109591966 / 1741110908071727" "5971615439479035"] by (simp add: div64_def rd_def pow2_def)
  have s48: "div64 (Fin (5957138200770295 / 68719476736)) (Fin (- (5223332724215181 / 2199023255552))) = Fin (- (1284073157775657 / 35184372088832))"
    using to_double_eval [of "5" "- (190628422424649440 / 5223332724215181)" "- 5136292631102628"] by (simp add: div64_def rd_def pow2_def)
  have s49: "add64 (Fin (- (5223332724215181 / 2199023255552))) (Fin 126452) = Fin (2131621531147237 / 17179869184)"
    using to_double_eval [of "16" "272847555986846323 / 2199023255552" "8526486124588948"] by (simp add: add64_def rd_def pow2_def)
  have s50: "div64 (Fin (- (3462978164387949 / 1099511627776))) (Fin (2131621531147237 / 17179869184)) = Fin (- (3658216747870821 / 144115188075855872))"
    using to_double_eval [of "- 6" "- (3462978164387949 / 136423777993423168)" "- 7316433495741642"] by (simp add: div64_def rd_def pow2_def)
  have s51: "div64 (Fin (- (2043307130464841 / 268435456))) (Fin (2131621531147237 / 17179869184)) = Fin (- (4317012704601599 / 70368744177664))"
    using to_double_eval [of "5" "- (130771656349749824 / 2131621531147237)" "- 8634025409203198"] by (simp add: div64_def rd_def pow2_def)
  have s52: "mul64 (Fin 284517) (Fin (8017139398207085 / 144115188075855872)) = Fin (8701371956480733 / 549755813888)"
    using to_double_eval [of "13" "2281012450159685202945 / 144115188075855872" "8701371956480733"] by (simp add: mul64_def rd_def pow2_def)
  have s53: "mul64 (Fin 94839) (Fin (4760176517685457 / 4503599627370496)) = Fin (3444293066106957 / 34359738368)"
    using to_double_eval [of "16" "451450380760771056423 / 4503599627370496" "6888586132213914"] by (simp add: mul64_def rd_def pow2_def)
  have s54: "sub64 (Fin (8701371956480733 / 549755813888)) (Fin (3444293066106957 / 34359738368)) = Fin (- (2900457318826911 / 34359738368))"
    using to_double_eval [of "16" "- (46407317101230579 / 549755813888)" "- 5800914637653822"] by (simp add: sub64_def rd_def minus_double_def pow2_def)
  have s55: "mul64 (Fin (- (2900457318826911 / 34359738368))) (Fin (6491062942364495 / 576460752303423488)) = Fin (- (4180445105227913 / 4398046511104))"
    using to_double_eval [of "9" "- (18827051018147243094857976924945 / 19807040628566084398385987584)" "- 8360890210455826"] by (simp add: mul64_def rd_def pow2_def)
  have s56: "mul64 (Fin 838422) (Fin (4760176517685457 / 4503599627370496)) = Fin (7612298424360039 / 8589934592)"
    using to_double_eval [of "19" "1995518358155438114427 / 2251799813685248" "7612298424360039"] by (simp add: mul64_def rd_def pow2_def)
  have s57: "mul64 (Fin 769860) (Fin (- (7349044448356495 / 36028797018963968))) = Fin (- (2697818450456491 / 17179869184))"
    using to_double_eval [of "17" "- (1414433839752932810175 / 9007199254740992)" "- 5395636900912982"] by (simp add: mul64_def rd_def pow2_def)
  have s58: "add64 (Fin (7612298424360039 / 8589934592)) (Fin (- (2697818450456491 / 17179869184))) = Fin (3131694599565897 / 4294967296)"
    using to_double_eval [of "19" "12526778398263587 / 17179869184" "6263389199131794"] by (simp add: add64_def rd_def pow2_def)
  have s59: "mul64 (Fin 731718) (Fin (8017139398207085 / 144115188075855872)) = Fin (2797262766922613 / 68719476736)"
    using to_double_eval [of "15" "2933142603088645911015 / 72057594037927936" "5594525533845226"] by (simp add: mul64_def rd_def pow2_def)
  have s60: "add64 (Fin (3131694599565897 / 4294967296)) (Fin (2797262766922613 / 68719476736)) = Fin (6613047044997121 / 8589934592)"
    using to_double_eval [of "19" "52904376359976965 / 68719476736" "6613047044997121"] by (simp add: add64_def rd_def pow2_def)
  have s61: "mul64 (Fin (6613047044997121 / 8589934592)) (Fin 10) = Fin (8266308806246401 / 1073741824)"
    using to_double_eval [of "22" "33065235224985605 / 4294967296" "8266308806246401"] by (simp add: mul64_def rd_def pow2_def)
  have s62: "mul64 (Fin (8266308806246401 / 1073741824)) (Fin (6491062942364495 / 576460752303423488)) = Fin (744642275096287 / 8589934592)"
    using to_double_eval [of "16" "53657130762367299880304523932495 / 618970019642690137449562112" "5957138200770296"] by (simp add: mul64_def rd_def pow2_def)
  have s63: "sub64 (Fin (744642275096287 / 8589934592)) (Fin 0) = Fin (744642275096287 / 8589934592)"
    using to_double_eval [of "16" "744642275096287 / 8589934592" "5957138200770296"] by (simp add: sub64_def rd_def minus_double_def pow2_def)
  have s64: "mul64 (Fin 632260) (Fin (4760176517685457 / 4503599627370496)) = Fin (5740488443511595 / 8589934592)"
    using to_double_eval [of "19" "752417301267951760705 / 1125899906842624" "5740488443511595"] by (simp add: mul64_def rd_def pow2_def)
  have s65: "mul64 (Fin 126452) (Fin (- (7349044448356495 / 36028797018963968))) = Fin (- (443125423709667 / 17179869184))"
    using to_double_eval [of "14" "- (232325342145893876435 / 9007199254740992)" "- 7090006779354672"] by (simp add: mul64_def rd_def pow2_def)
  have s66: "sub64 (Fin (5740488443511595 / 8589934592)) (Fin (- (443125423709667 / 17179869184))) = Fin (1490512788841607 / 2147483648)"
    using to_double_eval [of "19" "11924102310732857 / 17179869184" "5962051155366428"] by (simp add: sub64_def rd_def minus_double_def pow2_def)
  have s67: "mul64 (Fin (1490512788841607 / 2147483648)) (Fin (6491062942364495 / 576460752303423488)) = Fin (8593137160746265 / 1099511627776)"
    using to_double_eval [of "12" "9675012328770110764396615543465 / 1237940039285380274899124224" "8593137160746265"] by (simp add: mul64_def rd_def pow2_def)
  have s68: "add64 (Fin (8593137160746265 / 1099511627776)) (Fin 0) = Fin (8593137160746265 / 1099511627776)"
    using to_double_eval [of "12" "8593137160746265 / 1099511627776" "8593137160746265"] by (simp add: add64_def rd_def pow2_def)
  have s69: "div64 (Fin (- (4180445105227913 / 4398046511104))) (Fin (8593137160746265 / 1099511627776)) = Fin (- (4381880718522645 / 36028797018963968))"
    using to_double_eval [of "- 4" "- (4180445105227913 / 34372548642985060)" "- 8763761437045290"] by (simp add: div64_def rd_def pow2_def)
  have s70: "div64 (Fin (744642275096287 / 8589934592)) (Fin (8593137160746265 / 1099511627776)) = Fin (1561046034720441 / 140737488355328)"
    using to_double_eval [of "3" "95314211212324736 / 8593137160746265" "6244184138881764"] by (simp add: div64_def rd_def pow2_def)
  have s71: "sub64 (Fin (744642275096287 / 8589934592)) (Fin 7698600) = Fin (- (2043307130464841 / 268435456))"
    using to_double_eval [of "22" "- (65385828174874913 / 8589934592)" "- 8173228521859364"] by (simp add: sub64_def rd_def minus_double_def pow2_def)
  have s72: "add64 (Fin (8593137160746265 / 1099511627776)) (Fin 126452) = Fin (4613393172383657 / 34359738368)"
    using to_double_eval [of "17" "147628581516277017 / 1099511627776" "4613393172383657"] by (simp add: add64_def rd_def pow2_def)
  have s73: "div64 (Fin (- (4180445105227913 / 4398046511104))) (Fin (4613393172383657 / 34359738368)) = Fin (- (8161910470084493 / 1152921504606846976))"
    using to_double_eval [of "- 8" "- (4180445105227913 / 590514326065108096)" "- 8161910470084493"] by (simp add: div64_def rd_def pow2_def)
  have s74: "div64 (Fin (- (2043307130464841 / 268435456))) (Fin (4613393172383657 / 34359738368)) = Fin (- (997339364705643 / 17592186044416))"
    using to_double_eval [of "5" "- (261543312699499648 / 4613393172383657)" "- 7978714917645144"] by (simp add: div64_def rd_def pow2_def)
  show ?thesis
    by (simp add: get_bounds_ieee_def get_bounds_loops_ieee_def Let_def m_ieee_value
        epsilon_ieee_def double_arith program_constants
        s1 s2 s3 s4 s5 s6 s7 s8 s9 s10 s11 s12 s13 s14 s15 s16 s17 s18 s19 s20 s21 s22 s23 s24 s25 s26 s27 s28 s29 s30 s31 s32 s33 s34 s35 s36 s37 s38 s39 s40 s41 s42 s43 s44 s45 s46 s47 s48 s49 s50 s51 s52 s53 s54 s55 s56 s57 s58 s59 s60 s61 s62 s63 s64 s65 s66 s67 s68 s69 s70 s71 s72 s73 s74)
qed

lemma ray_lengths_ieee_10_0:
  "ray_lengths_ieee (Fin 10) (Fin 0) =
    [Fin (- (279421028288905 / 35184372088832)),
     Fin (3066938306346957 / 4398046511104),
     Fin (7747252251567507 / 281474976710656),
     Fin (- (2657318872523515 / 1099511627776)),
     Fin (3208816849147573 / 35184372088832),
     Fin (- (8805031043088643 / 1099511627776))]"
proof -
  have s1: "rd (Fin (157079632679489661923 / 50000000000000000000)) = Fin (884279719003555 / 281474976710656)"
    using to_double_eval [of "1" "157079632679489661923 / 50000000000000000000" "7074237752028440"] by (simp add: rd_def pow2_def)
  have s2: "div64 (Fin 0) (Fin 360) = Fin 0"
    by (simp add: div64_def rd_def to_double_zero)
  have s3: "mul64 (Fin 0) (Fin (884279719003555 / 281474976710656)) = Fin 0"
    by (simp add: mul64_def rd_def to_double_zero)
  have s4: "mul64 (Fin 0) (Fin 2) = Fin 0"
    by (simp add: mul64_def rd_def to_double_zero)
  have s5: "sin64 (Fin 0) = Fin 0"
    by (simp add: sin64_def rd_def to_double_zero)
  have s6: "cos64 (Fin 0) = Fin 1"
    using to_double_eval [of "0" "1" "4503599627370496"] by (simp add: cos64_def rd_def pow2_def)
  have s7: "mul64 (Fin (- (4515837669836177 / 562949953421312))) (Fin 1) = Fin (- (4515837669836177 / 562949953421312))"
    using to_double_eval [of "3" "- (4515837669836177 / 562949953421312)" "- 4515837669836177"] by (simp add: mul64_def rd_def pow2_def)
  have s8: "sub64 (Fin 0) (Fin (- (4515837669836177 / 562949953421312))) = Fin (4515837669836177 / 562949953421312)"
    using to_double_eval [of "3" "4515837669836177 / 562949953421312" "4515837669836177"] by (simp add: sub64_def rd_def minus_double_def pow2_def)
  have s9: "div64 (Fin (- (8965770385965735 / 140737488355328))) (Fin (4515837669836177 / 562949953421312)) = Fin (- (279421028288905 / 35184372088832))"
    using to_double_eval [of "2" "- (35863081543862940 / 4515837669836177)" "- 8941472905244960"] by (simp add: div64_def rd_def pow2_def)
  have s10: "mul64 (Fin (6287838709039039 / 72057594037927936)) (Fin 1) = Fin (6287838709039039 / 72057594037927936)"
    using to_double_eval [of "- 4" "6287838709039039 / 72057594037927936" "6287838709039039"] by (simp add: mul64_def rd_def pow2_def)
  have s11: "sub64 (Fin 0) (Fin (6287838709039039 / 72057594037927936)) = Fin (- (6287838709039039 / 72057594037927936))"
    using to_double_eval [of "- 4" "- (6287838709039039 / 72057594037927936)" "- 6287838709039039"] by (simp add: sub64_def rd_def minus_double_def pow2_def)
  have s12: "div64 (Fin (- (4281999954810051 / 70368744177664))) (Fin (- (6287838709039039 / 72057594037927936))) = Fin (3066938306346957 / 4398046511104)"
    using to_double_eval [of "9" "4384767953725492224 / 6287838709039039" "6133876612693914"] by (simp add: div64_def rd_def pow2_def)
  have s13: "mul64 (Fin (5971615439479035 / 4503599627370496)) (Fin 1) = Fin (5971615439479035 / 4503599627370496)"
    using to_double_eval [of "0" "5971615439479035 / 4503599627370496" "5971615439479035"] by (simp add: mul64_def rd_def pow2_def)
  have s14: "sub64 (Fin 0) (Fin (5971615439479035 / 4503599627370496)) = Fin (- (5971615439479035 / 4503599627370496))"
    using to_double_eval [of "0" "- (5971615439479035 / 4503599627370496)" "- 5971615439479035"] by (simp add: sub64_def rd_def minus_double_def pow2_def)
  have s15: "div64 (Fin (- (1284073157775657 / 35184372088832))) (Fin (- (5971615439479035 / 4503599627370496))) = Fin (7747252251567507 / 281474976710656)"
    using to_double_eval [of "4" "54787121398428032 / 1990538479826345" "7747252251567507"] by (simp add: div64_def rd_def pow2_def)
  have s16: "mul64 (Fin (- (3658216747870821 / 144115188075855872))) (Fin 1) = Fin (- (3658216747870821 / 144115188075855872))"
    using to_double_eval [of "- 6" "- (3658216747870821 / 144115188075855872)" "- 7316433495741642"] by (simp add: mul64_def rd_def pow2_def)
  have s17: "sub64 (Fin 0) (Fin (- (3658216747870821 / 144115188075855872))) = Fin (3658216747870821 / 144115188075855872)"
    using to_double_eval [of "- 6" "3658216747870821 / 144115188075855872" "7316433495741642"] by (simp add: sub64_def rd_def minus_double_def pow2_def)
  have s18: "div64 (Fin (- (4317012704601599 / 70368744177664))) (Fin (3658216747870821 / 144115188075855872)) = Fin (- (2657318872523515 / 1099511627776))"
    using to_double_eval [of "11" "- (8841242019024074752 / 3658216747870821)" "- 5314637745047030"] by (simp add: div64_def rd_def pow2_def)
  have s19: "mul64 (Fin (- (4381880718522645 / 36028797018963968))) (Fin 1) = Fin (- (4381880718522645 / 36028797018963968))"
    using to_double_eval [of "- 4" "- (4381880718522645 / 36028797018963968)" "- 8763761437045290"] by (simp add: mul64_def rd_def pow2_def)
  have s20: "sub64 (Fin 0) (Fin (- (4381880718522645 / 36028797018963968))) = Fin (4381880718522645 / 36028797018963968)"
    using to_double_eval [of "- 4" "4381880718522645 / 36028797018963968" "8763761437045290"] by (simp add: sub64_def rd_def minus_double_def pow2_def)
  have s21: "div64 (Fin (1561046034720441 / 140737488355328)) (Fin (4381880718522645 / 36028797018963968)) = Fin (3208816849147573 / 35184372088832)"
    using to_double_eval [of "6" "133209261629477632 / 1460626906174215" "6417633698295146"] by (simp add: div64_def rd_def pow2_def)
  have s22: "mul64 (Fin (- (8161910470084493 / 1152921504606846976))) (Fin 1) = Fin (- (8161910470084493 / 1152921504606846976))"
    using to_double_eval [of "- 8" "- (8161910470084493 / 1152921504606846976)" "- 8161910470084493"] by (simp add: mul64_def rd_def pow2_def)
  have s23: "sub64 (Fin 0) (Fin (- (8161910470084493 / 1152921504606846976))) = Fin (8161910470084493 / 1152921504606846976)"
    using to_double_eval [of "- 8" "8161910470084493 / 1152921504606846976" "8161910470084493"] by (simp add: sub64_def rd_def minus_double_def pow2_def)
  have s24: "div64 (Fin (- (997339364705643 / 17592186044416))) (Fin (8161910470084493 / 1152921504606846976)) = Fin (- (8805031043088643 / 1099511627776))"
    using to_double_eval [of "12" "- (65361632605349019648 / 8161910470084493)" "- 8805031043088643"] by (simp add: div64_def rd_def pow2_def)
  show ?thesis
    by (simp add: ray_lengths_ieee_def ray_length_until_intersect_ieee_def get_bounds_ieee_10
        pi_ieee_def double_arith program_constants
        s1 s2 s3 s4 s5 s6 s7 s8 s9 s10 s11 s12 s13 s14 s15 s16 s17 s18 s19 s20 s21 s22 s23 s24)
qed

lemma max_chroma_for_lh_ieee_10_0:
  "max_chroma_for_lh_ieee (Fin 10) (Fin 0) = Fin (7747252251567507 / 281474976710656)"
  by (simp add: max_chroma_for_lh_ieee_select ray_lengths_ieee_10_0 double_arith program_constants)

lemma hsluv2lch_ieee_10_0:
  "hsluv2lch_ieee \<lparr>Triplet.a = Fin 0, Triplet.b = Fin 100, Triplet.c = Fin 10\<rparr> =
     \<lparr>Triplet.a = Fin 10, Triplet.b = Fin (3873626125783753 / 140737488355328), Triplet.c = Fin 0\<rparr>"
proof -
  have s1: "rd (Fin (999999999 / 10000000)) = Fin (3518437205364763 / 35184372088832)"
    using to_double_eval [of "6" "999999999 / 10000000" "7036874410729526"] by (simp add: rd_def pow2_def)
  have s2: "rd (Fin (1 / 100000000)) = Fin (3022314549036573 / 302231454903657293676544)"
    using to_double_eval [of "- 27" "1 / 100000000" "6044629098073146"] by (simp add: rd_def pow2_def)
  have s3: "div64 (Fin (7747252251567507 / 281474976710656)) (Fin 100) = Fin (1239560360250801 / 4503599627370496)"
    using to_double_eval [of "- 2" "7747252251567507 / 28147497671065600" "4958241441003204"] by (simp add: div64_def rd_def pow2_def)
  have s4: "mul64 (Fin (1239560360250801 / 4503599627370496)) (Fin 100) = Fin (3873626125783753 / 140737488355328)"
    using to_double_eval [of "4" "30989009006270025 / 1125899906842624" "7747252251567506"] by (simp add: mul64_def rd_def pow2_def)
  show ?thesis
    by (simp add: hsluv2lch_ieee_def Let_def max_chroma_for_lh_ieee_10_0 double_arith
        s1 s2 s3 s4)
qed

text \<open>The chroma between the two thresholds, and the quotient by 100.\<close>

lemma less_asym_double: "x < y \<Longrightarrow> \<not> y < (x :: double)"
  by (cases x; cases y) simp_all

lemma threshold_literals:
  "rd 99.9999999 = Fin (3518437205364763 / 35184372088832)"
  "rd 0.00000001 = Fin (3022314549036573 / 302231454903657293676544)"
proof -
  have s1: "rd (Fin (999999999 / 10000000)) = Fin (3518437205364763 / 35184372088832)"
    using to_double_eval [of "6" "999999999 / 10000000" "7036874410729526"] by (simp add: rd_def pow2_def)
  have s2: "rd (Fin (1 / 100000000)) = Fin (3022314549036573 / 302231454903657293676544)"
    using to_double_eval [of "- 27" "1 / 100000000" "6044629098073146"] by (simp add: rd_def pow2_def)
  show "rd 99.9999999 = Fin (3518437205364763 / 35184372088832)" by (simp add: double_arith s1 s2)
  show "rd 0.00000001 = Fin (3022314549036573 / 302231454903657293676544)" by (simp add: double_arith s1 s2)
qed

lemma hsluv2lch_ieee_chroma:
  assumes "rd 0.00000001 < l" and "l < rd 99.9999999"
  shows "Triplet.b (hsluv2lch_ieee \<lparr>Triplet.a = h, Triplet.b = s, Triplet.c = l\<rparr>) =
           mul64 (div64 (max_chroma_for_lh_ieee l h) 100.0) s"
  using less_asym_double [OF assms(1)] less_asym_double [OF assms(2)]
  by (simp add: hsluv2lch_ieee_def Let_def)

lemma scaled_chroma:
  assumes "0 \<le> M" and "M \<le> 340282346638528859811704183484516925440"
  obtains t where "div64 (Fin M) 100.0 = Fin t" and "0 \<le> t"
    and "t \<le> 10 ^ 37" and "\<bar>t - M / 100\<bar> \<le> M / 100 / 2 ^ 53 + 1 / 2 ^ 1075"
proof -
  define t where "t = round_to 53 (- 1022) (M / 100)"
  from assms have b: "\<bar>M / 100\<bar> \<le> 10 ^ 300" by simp
  have 1: "div64 (Fin M) 100.0 = Fin t"
    unfolding t_def by (simp add: div64_def rd_def double_arith to_double_finite [OF b])
  have 2: "0 \<le> t" unfolding t_def using assms(1) by (intro round_to_double_nonneg) simp
  have 4: "\<bar>t - M / 100\<bar> \<le> M / 100 / 2 ^ 53 + 1 / 2 ^ 1075"
    unfolding t_def using round_to_double_error [of "M / 100"] assms(1) by simp
  have "(1 :: real) / 2 ^ 1075 \<le> 1" by simp
  with 4 have "t \<le> M / 100 + M / 100 / 2 ^ 53 + 1" by linarith
  also have "\<dots> \<le> 10 ^ 37" using assms(2) by simp
  finally have 3: "t \<le> 10 ^ 37" .
  from 1 2 3 4 show ?thesis by (rule that)
qed

text \<open>
  Claim C8, amended.  For every hue \<open>h\<close> and every lightness \<open>l\<close> strictly between the two
  thresholds, the chroma that \<open>hsluv2lch\<close> produces is the value \<open>M\<close> of
  \<open>max_chroma_for_lh l h\<close> divided by 100 and multiplied by \<open>s\<close>, each operation rounded.
  It is 0 at \<open>s = 0\<close>, it does not decrease when \<open>s\<close> increases from 0 to 100, and at
  \<open>s = 100\<close> it is \<open>M\<close> up to the rounding of the two operations: the difference is at
  most \<open>M / 2^51\<close> (plus \<open>2^-1068\<close>, for a subnormal \<open>M\<close>).
\<close>

theorem saturation_rounded:
  assumes "rd 0.00000001 < l" and "l < rd 99.9999999"
  shows "\<exists>M. max_chroma_for_lh_ieee l h = Fin M \<and> 0 \<le> M
     \<and> (\<forall>s. Triplet.b (hsluv2lch_ieee \<lparr>Triplet.a = h, Triplet.b = s, Triplet.c = l\<rparr>) =
            mul64 (div64 (Fin M) 100.0) s)
     \<and> Triplet.b (hsluv2lch_ieee \<lparr>Triplet.a = h, Triplet.b = Fin 0, Triplet.c = l\<rparr>) = Fin 0
     \<and> (\<forall>s1 s2. 0 \<le> s1 \<and> s1 \<le> s2 \<and> s2 \<le> 100 \<longrightarrow>
            Triplet.b (hsluv2lch_ieee \<lparr>Triplet.a = h, Triplet.b = Fin s1, Triplet.c = l\<rparr>)
              \<le> Triplet.b (hsluv2lch_ieee
                    \<lparr>Triplet.a = h, Triplet.b = Fin s2, Triplet.c = l\<rparr>))
     \<and> (\<exists>chroma.
            Triplet.b (hsluv2lch_ieee \<lparr>Triplet.a = h, Triplet.b = Fin 100, Triplet.c = l\<rparr>) =
              Fin chroma
          \<and> \<bar>chroma - M\<bar> \<le> M / 2 ^ 51 + 1 / 2 ^ 1068)"
proof -
  from max_chroma_for_lh_ieee_range [of l h] obtain M
    where M: "max_chroma_for_lh_ieee l h = Fin M" "0 \<le> M"
      "M \<le> 340282346638528859811704183484516925440"
    by blast
  from scaled_chroma [OF M(2,3)] obtain t
    where t: "div64 (Fin M) 100.0 = Fin t" "0 \<le> t" "t \<le> 10 ^ 37"
      "\<bar>t - M / 100\<bar> \<le> M / 100 / 2 ^ 53 + 1 / 2 ^ 1075"
    by blast
  have f: "Triplet.b (hsluv2lch_ieee \<lparr>Triplet.a = h, Triplet.b = s, Triplet.c = l\<rparr>) =
            mul64 (div64 (Fin M) 100.0) s" for s
    unfolding hsluv2lch_ieee_chroma [OF assms] M(1) ..
  have g: "Triplet.b (hsluv2lch_ieee \<lparr>Triplet.a = h, Triplet.b = Fin s, Triplet.c = l\<rparr>) =
            to_double (t * s)" for s
    unfolding f t(1) by (simp add: mul64_def rd_def)
  have zero: "Triplet.b (hsluv2lch_ieee \<lparr>Triplet.a = h, Triplet.b = Fin 0, Triplet.c = l\<rparr>)
      = Fin 0"
    unfolding g by (simp add: to_double_zero)
  have mono: "Triplet.b (hsluv2lch_ieee \<lparr>Triplet.a = h, Triplet.b = Fin s1, Triplet.c = l\<rparr>)
              \<le> Triplet.b (hsluv2lch_ieee
                    \<lparr>Triplet.a = h, Triplet.b = Fin s2, Triplet.c = l\<rparr>)"
    if "0 \<le> s1 \<and> s1 \<le> s2 \<and> s2 \<le> 100" for s1 s2
  proof -
    from that t(2) have 1: "0 \<le> t * s1" and 2: "t * s1 \<le> t * s2"
      by (simp_all add: mult_left_mono)
    from that t(2) have "t * s2 \<le> t * 100" by (intro mult_left_mono) simp_all
    also have "\<dots> \<le> 10 ^ 37 * 100" using t(3) by simp
    finally have "t * s2 \<le> 10 ^ 300" by simp
    with 1 2 have 3: "\<bar>t * s2\<bar> \<le> 10 ^ 300" by simp
    show ?thesis unfolding g using 1 2 3 by (rule to_double_mono)
  qed
  define chroma where "chroma = round_to 53 (- 1022) (t * 100)"
  define d :: real where "d = 1 / 2 ^ 1075"
  have d: "0 \<le> d" unfolding d_def by simp
  have d128: "128 * d = 1 / 2 ^ 1068" unfolding d_def by simp
  from t(2,3) have b: "\<bar>t * 100\<bar> \<le> 10 ^ 300" by simp
  have c: "Triplet.b (hsluv2lch_ieee \<lparr>Triplet.a = h, Triplet.b = Fin 100, Triplet.c = l\<rparr>) =
              Fin chroma"
    unfolding g chroma_def by (rule to_double_finite [OF b])
  have e1: "\<bar>chroma - t * 100\<bar> \<le> t * 100 / 2 ^ 53 + d"
    unfolding chroma_def d_def using round_to_double_error [of "t * 100"] t(2) by simp
  have e2: "\<bar>t - M / 100\<bar> \<le> M / 100 / 2 ^ 53 + d"
    unfolding d_def by (rule t(4))
  from e2 have e3: "\<bar>t * 100 - M\<bar> \<le> M / 2 ^ 53 + 100 * d" by (simp add: field_simps abs_le_iff)
  then have "t * 100 \<le> M + M / 2 ^ 53 + 100 * d" by linarith
  then have "t * 100 / 2 ^ 53 \<le> (M + M / 2 ^ 53 + 100 * d) / 2 ^ 53"
    by (rule divide_right_mono) simp
  also have "\<dots> \<le> M / 2 ^ 53 + M / 2 ^ 53 + d"
    using M(2) d by (simp add: field_simps)
  finally have e4: "t * 100 / 2 ^ 53 \<le> M / 2 ^ 53 + M / 2 ^ 53 + d" .
  have "\<bar>chroma - M\<bar> \<le> \<bar>chroma - t * 100\<bar> + \<bar>t * 100 - M\<bar>" by linarith
  also have "\<dots> \<le> 3 * (M / 2 ^ 53) + 102 * d" using e1 e3 e4 by linarith
  also have "\<dots> \<le> M / 2 ^ 51 + 128 * d" using M(2) d by (simp add: field_simps)
  finally have "\<bar>chroma - M\<bar> \<le> M / 2 ^ 51 + 1 / 2 ^ 1068" unfolding d128 .
  with c M(1,2) f zero mono show ?thesis by blast
qed

text \<open>At lightness 10 and hue 0, with the saturations 0, 50 and 100.\<close>

theorem saturation_rounded_witness:
  "rd 0.00000001 < Fin 10 \<and> Fin 10 < rd 99.9999999
   \<and> (\<exists>M. max_chroma_for_lh_ieee (Fin 10) (Fin 0) = Fin M \<and> 0 \<le> M
        \<and> Triplet.b (hsluv2lch_ieee
              \<lparr>Triplet.a = Fin 0, Triplet.b = Fin 0, Triplet.c = Fin 10\<rparr>) = Fin 0
        \<and> Triplet.b (hsluv2lch_ieee
              \<lparr>Triplet.a = Fin 0, Triplet.b = Fin 50, Triplet.c = Fin 10\<rparr>)
            \<le> Triplet.b (hsluv2lch_ieee
                  \<lparr>Triplet.a = Fin 0, Triplet.b = Fin 100, Triplet.c = Fin 10\<rparr>)
        \<and> (\<exists>chroma.
              Triplet.b (hsluv2lch_ieee
                \<lparr>Triplet.a = Fin 0, Triplet.b = Fin 100, Triplet.c = Fin 10\<rparr>) = Fin chroma
            \<and> \<bar>chroma - M\<bar> \<le> M / 2 ^ 51 + 1 / 2 ^ 1068))"
proof -
  have 1: "rd 0.00000001 < Fin 10" and 2: "Fin 10 < rd 99.9999999"
    unfolding threshold_literals by simp_all
  have "(0 :: real) \<le> 50 \<and> (50 :: real) \<le> 100 \<and> (100 :: real) \<le> 100" by simp
  with saturation_rounded [OF 1 2, of "Fin 0"] 1 2 show ?thesis by blast
qed

text \<open>
  The claim as it is written fails at lightness 10, hue 0 and saturation 100:
  \<open>max_chroma_for_lh\<close> returns \<open>27.52376904726186\<close>, and the chroma, this value divided by
  100 and multiplied by 100, is \<open>27.523769047261858\<close>, the double just below it.
\<close>

theorem full_saturation_not_max:
  "max_chroma_for_lh_ieee (Fin 10) (Fin 0) = Fin (7747252251567507 / 281474976710656)
   \<and> Triplet.b (hsluv2lch_ieee \<lparr>Triplet.a = Fin 0, Triplet.b = Fin 100, Triplet.c = Fin 10\<rparr>)
       = Fin (3873626125783753 / 140737488355328)
   \<and> Triplet.b (hsluv2lch_ieee \<lparr>Triplet.a = Fin 0, Triplet.b = Fin 100, Triplet.c = Fin 10\<rparr>)
       \<noteq> max_chroma_for_lh_ieee (Fin 10) (Fin 0)"
  unfolding hsluv2lch_ieee_10_0 max_chroma_for_lh_ieee_10_0 by simp

section \<open>The range of the hue\<close>

text \<open>
  Close to 0 the arc tangent of a number is the number, up to a third of its cube.
\<close>

lemma arctan_upper:
  assumes "0 \<le> x"
  shows "arctan x \<le> x"
proof -
  have "(\<lambda>y. y - arctan y) 0 \<le> (\<lambda>y. y - arctan y) x"
  proof (rule DERIV_nonneg_imp_nondecreasing [OF assms])
    fix y :: real
    have "((\<lambda>y. y - arctan y) has_real_derivative 1 - inverse (1 + y\<^sup>2)) (at y)"
      by (auto intro!: derivative_eq_intros)
    moreover have "inverse (1 + y\<^sup>2) \<le> 1"
      by (simp add: inverse_le_1_iff add_pos_nonneg)
    ultimately show "\<exists>z. ((\<lambda>y. y - arctan y) has_real_derivative z) (at y) \<and> 0 \<le> z"
      by (intro exI [of _ "1 - inverse (1 + y\<^sup>2)"]) simp
  qed
  then show ?thesis by simp
qed

lemma arctan_lower:
  assumes "0 \<le> x"
  shows "x - x ^ 3 / 3 \<le> arctan x"
proof -
  have "(\<lambda>y. arctan y - y + y ^ 3 / 3) 0 \<le> (\<lambda>y. arctan y - y + y ^ 3 / 3) x"
  proof (rule DERIV_nonneg_imp_nondecreasing [OF assms])
    fix y :: real
    have p: "0 < 1 + y\<^sup>2" by (simp add: add_pos_nonneg)
    have "((\<lambda>y. arctan y - y + y ^ 3 / 3) has_real_derivative
        inverse (1 + y\<^sup>2) - 1 + y\<^sup>2) (at y)"
      by (auto intro!: derivative_eq_intros simp: power2_eq_square)
    moreover have "inverse (1 + y\<^sup>2) - 1 + y\<^sup>2 = y ^ 4 / (1 + y\<^sup>2)"
      using p by (simp add: field_simps power2_eq_square power4_eq_xxxx)
    moreover have "0 \<le> y ^ 4 / (1 + y\<^sup>2)"
      using p by simp
    ultimately show "\<exists>z. ((\<lambda>y. arctan y - y + y ^ 3 / 3) has_real_derivative z) (at y) \<and> 0 \<le> z"
      by (intro exI [of _ "inverse (1 + y\<^sup>2) - 1 + y\<^sup>2"]) simp
  qed
  then show ?thesis by simp
qed

lemma arctan_near:
  "\<bar>arctan x - x\<bar> \<le> \<bar>x\<bar> ^ 3 / 3"
proof (cases "0 \<le> x")
  case True
  with arctan_upper [OF True] arctan_lower [OF True] show ?thesis by simp
next
  case False
  then have n: "0 \<le> - x" by simp
  from arctan_upper [OF n] arctan_lower [OF n] have "\<bar>arctan (- x) - (- x)\<bar> \<le> (- x) ^ 3 / 3"
    by simp
  moreover have "\<bar>x\<bar> = - x" using False by simp
  ultimately show ?thesis by (simp add: arctan_minus)
qed

text \<open>
  The double that the literal \<open>1e-17\<close> denotes is so small that the arc tangent of its
  negative rounds to that double again.
\<close>

lemma atan2_tiny:
  "atan2_64 (Fin (- (6490371073168535 / 649037107316853453566312041152512))) (Fin 1) = Fin (- (6490371073168535 / 649037107316853453566312041152512))"
proof -
  define x :: real where "x = - (6490371073168535 / 649037107316853453566312041152512)"
  define y where "y = arctan x"
  have "\<bar>y - x\<bar> \<le> \<bar>x\<bar> ^ 3 / 3" unfolding y_def by (rule arctan_near)
  moreover have "\<bar>x\<bar> ^ 3 / 3 \<le> 1 / 10 ^ 51" unfolding x_def by (simp add: power3_eq_cube)
  ultimately have "\<bar>y - x\<bar> \<le> 1 / 10 ^ 51" by (rule order_trans)
  then have b: "- (6490371073168535 / 649037107316853453566312041152512) - 1 / 10 ^ 51 \<le> y" "y \<le> - (6490371073168535 / 649037107316853453566312041152512) + 1 / 10 ^ 51"
    unfolding x_def by linarith+
  from b(2) have n: "y < 0" by simp
  have 1: "pow2 (- 57) \<le> \<bar>y\<bar>"
    using n b(2) by (simp add: pow2_def)
  have 2: "\<bar>y\<bar> < pow2 (- 57 + 1)"
    using n b(1) by (simp add: pow2_def)
  define z where "z = y / pow2 (- 57 - 52) - of_int (- 6490371073168535)"
  have "z < 1 / 2"
    unfolding z_def using b(2) by (simp add: pow2_def)
  moreover have "- (1 / 2) < z"
    unfolding z_def using b(1) by (simp add: pow2_def)
  ultimately have "\<bar>z\<bar> < 1 / 2" by (simp add: abs_less_iff)
  then have "\<bar>y / pow2 (- 57 - 52) - of_int (- 6490371073168535)\<bar> < 1 / 2"
    unfolding z_def .
  then have 3: "\<bar>y / pow2 (- 57 - 52) - of_int (- 6490371073168535)\<bar> < 1 / 2
      \<or> (\<bar>y / pow2 (- 57 - 52) - of_int (- 6490371073168535)\<bar> = 1 / 2 \<and> even (- 6490371073168535 :: int))"
    by (rule disjI1)
  have "to_double y = Fin (of_int (- 6490371073168535) * pow2 (- 57 - 52))"
    using 1 2 _ _ 3 by (rule to_double_eval) simp_all
  then have "to_double (arctan x) = Fin x"
    unfolding x_def y_def by (simp add: pow2_def)
  then show ?thesis
    unfolding x_def by (simp add: atan2_64_def rd_def)
qed

lemma tiny_negative_literal:
  "rd (- 0.00000000000000001) = Fin (- (6490371073168535 / 649037107316853453566312041152512))"
proof -
  have s1: "rd (Fin (- (1 / 100000000000000000))) = Fin (- (6490371073168535 / 649037107316853453566312041152512))"
    using to_double_eval [of "- 57" "- (1 / 100000000000000000)" "- 6490371073168535"] by (simp add: rd_def pow2_def)
  show ?thesis by (simp add: double_arith s1)
qed

text \<open>
  Claim C7 at the LUV input \<open>(50, 1, -1e-17)\<close>.  The chroma is 1, the angle
  \<open>atan2(v, u)\<close> is \<open>-1e-17\<close>, in degrees \<open>-5.73e-16\<close>, which is negative, and the sum of
  this value and \<open>360.0\<close> rounds to \<open>360.0\<close>: the hue that \<open>luv2lch\<close> returns is 360, not
  a value of \<open>[0, 360)\<close>.
\<close>

theorem hue_reaches_360:
  "luv2lch_ieee \<lparr>Triplet.a = 50, Triplet.b = 1, Triplet.c = rd (- 0.00000000000000001)\<rparr> =
     \<lparr>Triplet.a = 50, Triplet.b = 1, Triplet.c = 360\<rparr>"
proof -
  have s1: "rd (Fin (- (1 / 100000000000000000))) = Fin (- (6490371073168535 / 649037107316853453566312041152512))"
    using to_double_eval [of "- 57" "- (1 / 100000000000000000)" "- 6490371073168535"] by (simp add: rd_def pow2_def)
  have s2: "rf (Fin 1) = Fin 1"
    using to_single_eval [of "0" "1" "8388608"] by (simp add: rf_def pow2_def)
  have s3: "to_single (- (6490371073168535 / 649037107316853453566312041152512)) = Fin (- (6044629 / 604462909807314587353088))"
    using to_single_eval [of "- 57" "- (6490371073168535 / 649037107316853453566312041152512)" "- 12089258"] by (simp add: rf_def pow2_def)
  have s4: "powf32 (Fin 1) 2 = Fin 1"
    using to_single_eval [of "0" "1" "8388608"] by (simp add: powf32_def rf_def is_int_def pow2_def)
  have s5: "powf32 (Fin (- (6490371073168535 / 649037107316853453566312041152512))) 2 = Fin (2177807 / 21778071482940061661655974875633165533184)"
    using to_single_eval [of "- 113" "36537539747641 / 365375409332725729550921208179070754913983135744" "8711228"] by (simp add: powf32_def rf_def is_int_def power2_eq_square s3 pow2_def)
  have s6: "add32 (Fin 1) (Fin (2177807 / 21778071482940061661655974875633165533184)) = Fin 1"
    using to_single_eval [of "0" "21778071482940061661655974875633167710991 / 21778071482940061661655974875633165533184" "8388608"] by (simp add: add32_def rf_def pow2_def)
  have s7: "sqrtf32 (Fin 1) = Fin 1"
    using to_single_eval [of "0" "1" "8388608"] by (simp add: sqrtf32_def rf_def pow2_def)
  have s8: "rd (Fin (1 / 100000000)) = Fin (3022314549036573 / 302231454903657293676544)"
    using to_double_eval [of "- 27" "1 / 100000000" "6044629098073146"] by (simp add: rd_def pow2_def)
  have s9: "div64 (Fin 360) (Fin 2) = Fin 180"
    using to_double_eval [of "7" "180" "6333186975989760"] by (simp add: div64_def rd_def pow2_def)
  have s10: "rd (Fin (157079632679489661923 / 50000000000000000000)) = Fin (884279719003555 / 281474976710656)"
    using to_double_eval [of "1" "157079632679489661923 / 50000000000000000000" "7074237752028440"] by (simp add: rd_def pow2_def)
  have s11: "div64 (Fin 180) (Fin (884279719003555 / 281474976710656)) = Fin (1007958012753983 / 17592186044416)"
    using to_double_eval [of "5" "10133099161583616 / 176855943800711" "8063664102031864"] by (simp add: div64_def rd_def pow2_def)
  have s12: "mul64 (Fin (- (6490371073168535 / 649037107316853453566312041152512))) (Fin (1007958012753983 / 17592186044416)) = Fin (- (726310292903031 / 1267650600228229401496703205376))"
    using to_double_eval [of "- 51" "- (6542021528946892532413251524905 / 11417981541647679048466287755595961091061972992)" "- 5810482343224248"] by (simp add: mul64_def rd_def pow2_def)
  have s13: "add64 (Fin (- (726310292903031 / 1267650600228229401496703205376))) (Fin 360) = Fin 360"
    using to_double_eval [of "8" "456354216082162583812502861032329 / 1267650600228229401496703205376" "6333186975989760"] by (simp add: add64_def rd_def pow2_def)
  show ?thesis
    unfolding tiny_negative_literal
    by (simp add: luv2lch_ieee_def Let_def pi_ieee_def atan2_tiny double_arith program_constants
        s1 s2 s3 s4 s5 s6 s7 s8 s9 s10 s11 s12 s13)
qed

end
